theory Spec2Isabelle
  imports
    Complex_Main
    "HOL-Library.Multiset"
    "HOL-Library.AList"
    "HOL-Library.Char_ord"
    "HOL-Library.List_Lexorder"
begin

section \<open>PixPlot network export: the embedding\<close>

text \<open>
  The development follows \<^verbatim>\<open>pixplot_network_export.py\<close>: the neighbour search
  (\<^verbatim>\<open>find_nearest_neighbors\<close>), the edge assembly at the end of
  \<^verbatim>\<open>extract_network_data\<close>, and the two writers \<^verbatim>\<open>write_csv\<close> and
  \<^verbatim>\<open>create_node_csv\<close>, driven by \<^verbatim>\<open>main\<close>.

  Coordinates, distances and weights are real numbers. The program computes them in
  machine arithmetic: \<^verbatim>\<open>cdist\<close> converts the coordinates to binary64 before it takes
  distances, \<^verbatim>\<open>distance.euclidean\<close> subtracts two rows in the element type of the array
  (for an integer array, 64-bit integers that wrap), and the weight is a binary64 quotient
  with the literal \<^verbatim>\<open>1e-5\<close>, which is not the rational \<open>1 / 100000\<close>. Rounding, wrapping,
  NaN and infinities are not part of the model, so a statement below that mentions a
  distance or a weight is about the real number, not about the float the program emits;
  the statements about lengths, identifiers, ranks, headers and exceptions do not depend on
  these values. Strings are byte
  lists compared lexicographically, which is the order of Python's \<^verbatim>\<open>sorted\<close> on
  \<^verbatim>\<open>str\<close>. Everything read from or written to the file system is an argument or a
  result of the function concerned.
\<close>

subsection \<open>Values\<close>

type_synonym point = "real list"

text \<open>
  \<open>ValueError\<close> and \<open>IndexError\<close> are the exceptions the modelled lines can raise;
  \<open>Returned_None\<close> is the early \<^verbatim>\<open>return None\<close> of \<^verbatim>\<open>extract_network_data\<close>.
\<close>

datatype failure = ValueError | IndexError | Returned_None

text \<open>The lines printed by \<^verbatim>\<open>extract_network_data\<close> from the length check onwards.\<close>

datatype log_msg =
    Warning_count_mismatch nat nat
  | Finding_neighbors int
  | Loading_metadata
  | Creating_network_data
  | Created_connections nat

text \<open>One row of \<^verbatim>\<open>network_data\<close>: a dictionary with these nine keys.\<close>

record edge =
  source :: string
  target :: string
  weight :: real
  distance :: real
  rank :: nat
  source_x :: real
  source_y :: real
  target_x :: real
  target_y :: real

text \<open>
  A cell of a node row: the identifier and the resolved paths are strings, the coordinates
  are floats, and a metadata value is whatever JSON value the metadata file holds.
\<close>

datatype 'j cell = Str string | Float real | Json 'j

type_synonym 'j node_data = "(string \<times> 'j cell) list"

type_synonym 'j metadata = "string \<rightharpoonup> (string \<times> 'j cell) list"

subsection \<open>Library functions the script calls\<close>

text \<open>\<^verbatim>\<open>os.path.basename\<close> (POSIX): everything after the last slash.\<close>

definition basename :: "string \<Rightarrow> string" where
  "basename p = rev (takeWhile (\<lambda>c. c \<noteq> CHR ''/'') (rev p))"

text \<open>
  A Python slice \<^verbatim>\<open>xs[start:stop]\<close> with step 1: a negative bound counts from the end,
  and both bounds are clamped to \<open>0 .. len(xs)\<close>.
\<close>

definition slice_bound :: "nat \<Rightarrow> int \<Rightarrow> nat" where
  "slice_bound n i = (if i < 0 then nat (max 0 (i + int n)) else min (nat i) n)"

definition py_slice :: "'a list \<Rightarrow> int \<Rightarrow> int \<Rightarrow> 'a list" where
  "py_slice xs start stop =
     (let s = slice_bound (length xs) start;
          e = slice_bound (length xs) stop
      in take (e - s) (drop s xs))"

text \<open>
  \<^verbatim>\<open>scipy.spatial.distance.euclidean\<close>: the 2-norm of the difference, here over the
  reals. The library subtracts in the element type of its arguments and takes the norm in
  binary64.
\<close>

definition euclidean :: "point \<Rightarrow> point \<Rightarrow> real" where
  "euclidean u v = sqrt (\<Sum>(a, b)\<leftarrow>zip u v. (a - b)\<^sup>2)"

text \<open>
  An array is two-dimensional when it has at least one row and all rows have one length.
  \<^verbatim>\<open>np.array\<close> of an empty list has shape \<open>(0,)\<close>, which is not two-dimensional.
\<close>

definition ncols :: "point list \<Rightarrow> nat" where
  "ncols X = (case X of [] \<Rightarrow> 0 | p # _ \<Rightarrow> length p)"

definition is_2d :: "point list \<Rightarrow> bool" where
  "is_2d X \<longleftrightarrow> X \<noteq> [] \<and> list_all (\<lambda>p. length p = ncols X) X"

text \<open>
  \<^verbatim>\<open>np.array(positions)\<close>: a ragged nested list is not a float array. Newer numpy raises
  \<^verbatim>\<open>ValueError\<close> at once; older numpy builds a one-dimensional object array, on which
  \<^verbatim>\<open>cdist\<close> raises \<^verbatim>\<open>ValueError\<close> whatever prefix of it is taken.
\<close>

definition np_array :: "point list \<Rightarrow> failure + point list" where
  "np_array X = (if list_all (\<lambda>p. length p = ncols X) X then Inr X else Inl ValueError)"

text \<open>
  \<^verbatim>\<open>distance.cdist(XA, XB, 'euclidean')\<close>: both arguments must be two-dimensional with
  the same number of columns, else \<^verbatim>\<open>ValueError\<close>. The entries are the exact distances;
  the library converts both arguments to binary64 first, so its entries are those of the
  rounded coordinates and need not be the values \<^verbatim>\<open>distance.euclidean\<close> gives for the
  same rows.
\<close>

definition cdist :: "point list \<Rightarrow> point list \<Rightarrow> failure + real list list" where
  "cdist XA XB =
     (if is_2d XA \<and> is_2d XB \<and> ncols XA = ncols XB
      then Inr (map (\<lambda>u. map (\<lambda>v. euclidean u v) XB) XA)
      else Inl ValueError)"

text \<open>
  \<^verbatim>\<open>np.argsort\<close> is called with its default \<^verbatim>\<open>kind\<close>. The functions below take it as
  the argument \<open>argsort\<close>. What numpy promises of it is \<open>argsort_spec\<close>: the result is a
  permutation of the indices that puts the values in ascending order. The default kind
  (\<^verbatim>\<open>'quicksort'\<close>) is documented as not stable: which of two equal values comes first
  is decided inside numpy and is no part of \<open>argsort_spec\<close>.
\<close>

definition argsort_spec :: "(real list \<Rightarrow> nat list) \<Rightarrow> bool" where
  "argsort_spec argsort \<longleftrightarrow>
     (\<forall>xs. mset (argsort xs) = mset [0..<length xs] \<and> sorted (map (\<lambda>i. xs ! i) (argsort xs)))"

text \<open>
  Two argsorts that meet \<open>argsort_spec\<close>: an insertion sort of the indices that keeps
  equal values in index order, and one that puts equal values in descending index order.
\<close>

definition stable_argsort :: "real list \<Rightarrow> nat list" where
  "stable_argsort xs = sort_key (\<lambda>i. xs ! i) [0..<length xs]"

definition ties_desc_argsort :: "real list \<Rightarrow> nat list" where
  "ties_desc_argsort xs = sort_key (\<lambda>i. xs ! i) (rev [0..<length xs])"

subsection \<open>Neighbour search\<close>

definition find_nearest_neighbors ::
  "(real list \<Rightarrow> nat list) \<Rightarrow> point list \<Rightarrow> int \<Rightarrow> failure + nat list list" where
  "find_nearest_neighbors argsort positions n_neighbors =
     (case cdist positions positions of
        Inl e \<Rightarrow> Inl e
      | Inr dist_matrix \<Rightarrow>
          Inr (map (\<lambda>i. let closest_indices = argsort (dist_matrix ! i)
                        in py_slice closest_indices 1 (n_neighbors + 1))
                   [0..<length positions]))"

subsection \<open>Edge assembly\<close>

text \<open>A loop body that may raise, run over a list: the first exception ends the loop.\<close>

fun traverse :: "('a \<Rightarrow> failure + 'b) \<Rightarrow> 'a list \<Rightarrow> failure + 'b list" where
  "traverse f [] = Inr []"
| "traverse f (x # xs) =
     (case f x of
        Inl e \<Rightarrow> Inl e
      | Inr y \<Rightarrow> (case traverse f xs of Inl e \<Rightarrow> Inl e | Inr ys \<Rightarrow> Inr (y # ys)))"

text \<open>
  The body of the inner loop for point \<open>i\<close>, rank index \<open>j\<close> and neighbour
  \<open>neighbor_idx\<close>. Indexing the file names or the positions out of range raises
  \<^verbatim>\<open>IndexError\<close>, and so does reading column 0 or 1 of a shorter row. The fields
  \<open>distance\<close> and \<open>weight\<close> hold the exact distance and the exact quotient, where the
  program holds the binary64 results of \<^verbatim>\<open>distance.euclidean\<close> and of
  \<^verbatim>\<open>1.0 / (distance_val + 1e-5)\<close>.
\<close>

definition make_row ::
  "point list \<Rightarrow> string list \<Rightarrow> nat \<Rightarrow> real \<Rightarrow> real \<Rightarrow> nat \<times> nat \<Rightarrow> failure + edge" where
  "make_row positions image_filenames i pos_x pos_y jn =
     (case jn of (j, neighbor_idx) \<Rightarrow>
        if neighbor_idx < length image_filenames \<and> neighbor_idx < length positions then
          (let base_filename = basename (image_filenames ! i);
               neighbor_filename = basename (image_filenames ! neighbor_idx);
               distance_val = euclidean (positions ! i) (positions ! neighbor_idx)
           in case positions ! neighbor_idx of
                tx # ty # _ \<Rightarrow>
                  Inr \<lparr> source = base_filename,
                        target = neighbor_filename,
                        weight = 1 / (distance_val + 1 / 100000),
                        distance = distance_val,
                        rank = j + 1,
                        source_x = pos_x,
                        source_y = pos_y,
                        target_x = tx,
                        target_y = ty \<rparr>
              | _ \<Rightarrow> Inl IndexError)
        else Inl IndexError)"

text \<open>
  The body of the outer loop. \<^verbatim>\<open>pos_x, pos_y = positions[i]\<close> raises \<^verbatim>\<open>ValueError\<close>
  unless the row has exactly two entries. When the loop runs, \<open>positions\<close>,
  \<open>image_filenames\<close> and \<open>neighbors\<close> have the same length, so index \<open>i\<close> is in range.
\<close>

definition rows_for_point ::
  "point list \<Rightarrow> string list \<Rightarrow> nat list list \<Rightarrow> nat \<Rightarrow> failure + edge list" where
  "rows_for_point positions image_filenames neighbors i =
     (let neighbor_indices = neighbors ! i
      in case positions ! i of
           [pos_x, pos_y] \<Rightarrow>
             traverse (make_row positions image_filenames i pos_x pos_y)
                      (enumerate 0 neighbor_indices)
         | _ \<Rightarrow> Inl ValueError)"

text \<open>
  \<^verbatim>\<open>extract_network_data\<close> from the point where the image list and the layout are in
  memory. \<open>positions0\<close> is the position list of the layout file and \<open>image_filenames0\<close>
  the image list; the function has returned \<^verbatim>\<open>None\<close> before reading the layout when
  the image list is empty, and after reading it when the layout file holds an empty value.
  An empty \<open>positions0\<close> is therefore the position list of a layout
  \<^verbatim>\<open>{"positions": []}\<close>, which is not an empty value. \<open>load_metadata\<close> stands for the
  metadata files read for the given file names. The result is the printed lines,
  \<^verbatim>\<open>network_data\<close> and the metadata.
\<close>

definition extract_network_data ::
  "(real list \<Rightarrow> nat list) \<Rightarrow> (string list \<Rightarrow> 'j metadata) \<Rightarrow> point list \<Rightarrow> string list \<Rightarrow>
   int \<Rightarrow> bool \<Rightarrow> failure + (log_msg list \<times> edge list \<times> 'j metadata)" where
  "extract_network_data argsort load_metadata positions0 image_filenames0 n_neighbors
      include_metadata =
     (if image_filenames0 = [] then Inl Returned_None
      else case np_array positions0 of
        Inl e \<Rightarrow> Inl e
      | Inr positions1 \<Rightarrow>
         (let mismatch = (length positions1 \<noteq> length image_filenames0);
              min_count = min (length positions1) (length image_filenames0);
              positions = (if mismatch then take min_count positions1 else positions1);
              image_filenames =
                (if mismatch then take min_count image_filenames0 else image_filenames0);
              log1 = (if mismatch
                      then [Warning_count_mismatch (length positions1) (length image_filenames0)]
                      else []) @ [Finding_neighbors n_neighbors]
          in case find_nearest_neighbors argsort positions n_neighbors of
               Inl e \<Rightarrow> Inl e
             | Inr neighbors \<Rightarrow>
                (let metadata = (if include_metadata then load_metadata image_filenames
                                 else Map.empty);
                     log2 = log1 @ (if include_metadata then [Loading_metadata] else [])
                              @ [Creating_network_data]
                 in case traverse (rows_for_point positions image_filenames neighbors)
                                  [0..<length image_filenames] of
                      Inl e \<Rightarrow> Inl e
                    | Inr blocks \<Rightarrow>
                       (let network_data = concat blocks
                        in Inr (log2 @ [Created_connections (length network_data)],
                                network_data, metadata)))))"

subsection \<open>Writers\<close>

definition essential_cols :: "string list" where
  "essential_cols = [''source'', ''target'', ''weight'', ''distance'', ''rank'']"

definition row_keys :: "edge \<Rightarrow> string list" where
  "row_keys row = [''source'', ''target'', ''weight'', ''distance'', ''rank'',
                   ''source_x'', ''source_y'', ''target_x'', ''target_y'']"

text \<open>
  \<^verbatim>\<open>write_csv\<close>. \<open>writable\<close> says whether the output file can be opened and written;
  the result is the returned flag and the file written (header row and data rows), if any.
\<close>

definition write_csv :: "bool \<Rightarrow> edge list \<Rightarrow> bool \<times> (string list \<times> edge list) option" where
  "write_csv writable network_data =
     (if network_data = [] then (False, None)
      else
        (let fieldnames = fold (\<lambda>row acc. acc \<union> set (row_keys row)) network_data {};
             fieldnames' = essential_cols
                             @ sorted_list_of_set (fieldnames - set essential_cols)
         in if writable then (True, Some (fieldnames', network_data)) else (False, None)))"

text \<open>
  The dictionary \<^verbatim>\<open>nodes\<close> keeps insertion order: an association list with one entry per
  key, a new key going to the end.
\<close>

definition new_node ::
  "bool \<Rightarrow> (string \<Rightarrow> string) \<Rightarrow> (string \<Rightarrow> string) \<Rightarrow> string \<Rightarrow> real \<Rightarrow> real \<Rightarrow> 'j node_data" where
  "new_node include_thumbs get_thumbnail_path get_original_path ident x y =
     [(''id'', Str ident), (''x'', Float x), (''y'', Float y)]
       @ (if include_thumbs
          then [(''thumb'', Str (get_thumbnail_path ident)),
                (''original'', Str (get_original_path ident))]
          else [])"

definition add_row_nodes ::
  "bool \<Rightarrow> (string \<Rightarrow> string) \<Rightarrow> (string \<Rightarrow> string) \<Rightarrow> edge \<Rightarrow>
   (string \<times> 'j node_data) list \<Rightarrow> (string \<times> 'j node_data) list" where
  "add_row_nodes include_thumbs get_thumbnail_path get_original_path row nodes =
     (let nodes1 =
            (if source row \<notin> fst ` set nodes
             then nodes @ [(source row,
                    new_node include_thumbs get_thumbnail_path get_original_path
                      (source row) (source_x row) (source_y row))]
             else nodes)
      in if target row \<notin> fst ` set nodes1
         then nodes1 @ [(target row,
                new_node include_thumbs get_thumbnail_path get_original_path
                  (target row) (target_x row) (target_y row))]
         else nodes1)"

definition add_metadata :: "'j metadata \<Rightarrow> string \<times> 'j node_data \<Rightarrow> string \<times> 'j node_data" where
  "add_metadata metadata entry =
     (case entry of (node_id, node) \<Rightarrow>
        (case metadata node_id of
           None \<Rightarrow> (node_id, node)
         | Some items \<Rightarrow>
             (node_id,
              fold (\<lambda>(key, val) nd. if key \<noteq> ''filename'' then AList.update key val nd else nd)
                   items node)))"

text \<open>
  \<^verbatim>\<open>create_node_csv\<close>. The two path resolvers probe the file system and are arguments;
  \<open>writable\<close> is as for \<open>write_csv\<close>.
\<close>

definition create_node_csv ::
  "bool \<Rightarrow> (string \<Rightarrow> string) \<Rightarrow> (string \<Rightarrow> string) \<Rightarrow> edge list \<Rightarrow> 'j metadata \<Rightarrow> bool \<Rightarrow>
   bool \<times> (string list \<times> 'j node_data list) option" where
  "create_node_csv writable get_thumbnail_path get_original_path network_data metadata
      include_thumbs =
     (if network_data = [] then (False, None)
      else
        (let nodes0 = fold (add_row_nodes include_thumbs get_thumbnail_path get_original_path)
                           network_data [];
             nodes = map (add_metadata metadata) nodes0;
             fieldnames = fold (\<lambda>node_data acc. acc \<union> set (map fst node_data))
                               (map snd nodes) {};
             fieldnames' = ''id'' # sorted_list_of_set (fieldnames - {''id''})
         in if writable then (True, Some (fieldnames', map snd nodes)) else (False, None)))"

subsection \<open>The run\<close>

text \<open>
  \<^verbatim>\<open>main\<close> after argument parsing, for an existing data directory. The result is the
  edge file and the node file written, if any.
\<close>

definition main ::
  "(real list \<Rightarrow> nat list) \<Rightarrow> (string list \<Rightarrow> 'j metadata) \<Rightarrow> (string \<Rightarrow> string) \<Rightarrow>
   (string \<Rightarrow> string) \<Rightarrow> bool \<Rightarrow> bool \<Rightarrow> point list \<Rightarrow> string list \<Rightarrow> int \<Rightarrow> bool \<Rightarrow> bool \<Rightarrow>
   failure + ((string list \<times> edge list) option \<times> (string list \<times> 'j node_data list) option)" where
  "main argsort load_metadata get_thumbnail_path get_original_path edges_writable
      nodes_writable positions0 image_filenames0 n_neighbors include_thumbs include_metadata =
     (case extract_network_data argsort load_metadata positions0 image_filenames0 n_neighbors
             include_metadata of
        Inl Returned_None \<Rightarrow> Inr (None, None)
      | Inl e \<Rightarrow> Inl e
      | Inr (printed, network_data, metadata) \<Rightarrow>
          if network_data = [] then Inr (None, None)
          else
            (case write_csv edges_writable network_data of
               (True, edges_file) \<Rightarrow>
                 Inr (edges_file,
                      snd (create_node_csv nodes_writable get_thumbnail_path get_original_path
                             network_data metadata include_thumbs))
             | (False, edges_file) \<Rightarrow> Inr (edges_file, None)))"

subsection \<open>Derived notions used in the statements\<close>

text \<open>The neighbour list of point \<open>i\<close>: row \<open>i\<close> of the distance matrix, sorted and sliced.\<close>

definition neighbors_of :: "(real list \<Rightarrow> nat list) \<Rightarrow> point list \<Rightarrow> int \<Rightarrow> nat \<Rightarrow> nat list" where
  "neighbors_of argsort positions k i =
     py_slice (argsort (map (euclidean (positions ! i)) positions)) 1 (k + 1)"

text \<open>The row the inner loop builds for point \<open>i\<close>, rank index \<open>j\<close> and neighbour \<open>n\<close>.\<close>

definition edge_of :: "point list \<Rightarrow> string list \<Rightarrow> nat \<Rightarrow> nat \<Rightarrow> nat \<Rightarrow> edge" where
  "edge_of positions image_filenames i j n =
     \<lparr> source = basename (image_filenames ! i),
       target = basename (image_filenames ! n),
       weight = 1 / (euclidean (positions ! i) (positions ! n) + 1 / 100000),
       distance = euclidean (positions ! i) (positions ! n),
       rank = j + 1,
       source_x = positions ! i ! 0,
       source_y = positions ! i ! 1,
       target_x = positions ! n ! 0,
       target_y = positions ! n ! 1 \<rparr>"

text \<open>The rows emitted for point \<open>i\<close>, in emission order.\<close>

definition point_edges ::
  "(real list \<Rightarrow> nat list) \<Rightarrow> point list \<Rightarrow> string list \<Rightarrow> int \<Rightarrow> nat \<Rightarrow> edge list" where
  "point_edges argsort positions image_filenames k i =
     map (\<lambda>(j, n). edge_of positions image_filenames i j n)
         (enumerate 0 (neighbors_of argsort positions k i))"

text \<open>
  The coordinates at the first occurrence of an identifier in an edge list, iterating the
  edges in order and looking at the source of an edge before its target.
\<close>

fun first_occurrence :: "edge list \<Rightarrow> string \<Rightarrow> (real \<times> real) option" where
  "first_occurrence [] s = None"
| "first_occurrence (e # es) s =
     (if source e = s then Some (source_x e, source_y e)
      else if target e = s then Some (target_x e, target_y e)
      else first_occurrence es s)"

text \<open>Metadata that has no field named like one of the three node fields.\<close>

definition keeps_node_fields :: "'j metadata \<Rightarrow> bool" where
  "keeps_node_fields metadata \<longleftrightarrow>
     (\<forall>node_id items. metadata node_id = Some items \<longrightarrow>
        ''id'' \<notin> fst ` set items \<and> ''x'' \<notin> fst ` set items \<and> ''y'' \<notin> fst ` set items)"

subsection \<open>The result of a successful extraction, in closed form\<close>

text \<open>The lines printed by a run that reaches the end of \<^verbatim>\<open>extract_network_data\<close>.\<close>

definition printed_lines :: "nat \<Rightarrow> nat \<Rightarrow> int \<Rightarrow> bool \<Rightarrow> nat \<Rightarrow> log_msg list" where
  "printed_lines n_positions n_images k include_metadata n_edges =
     (if n_positions \<noteq> n_images then [Warning_count_mismatch n_positions n_images] else [])
       @ [Finding_neighbors k]
       @ (if include_metadata then [Loading_metadata] else [])
       @ [Creating_network_data, Created_connections n_edges]"

text \<open>
  All rows in emission order: point by point over the common prefix of positions and file
  names, and within a point by rank.
\<close>

definition all_edges ::
  "(real list \<Rightarrow> nat list) \<Rightarrow> point list \<Rightarrow> string list \<Rightarrow> int \<Rightarrow> edge list" where
  "all_edges argsort positions0 image_filenames0 k =
     (let m = min (length positions0) (length image_filenames0)
      in concat (map (point_edges argsort (take m positions0) (take m image_filenames0) k)
                     [0..<m]))"

subsection \<open>Example inputs\<close>

text \<open>The four points of the specification's scenario, and file names for them.\<close>

definition four_points :: "point list" where
  "four_points = [[0, 0], [1, 0], [0, 1], [5, 5]]"

definition four_names :: "string list" where
  "four_names = [''a.jpg'', ''b.jpg'', ''c.jpg'', ''d.jpg'']"

text \<open>Two points at the same place, and two points whose files share a base name.\<close>

definition coincident_points :: "point list" where
  "coincident_points = [[0, 0], [0, 0]]"

definition two_points :: "point list" where
  "two_points = [[0, 0], [1, 0]]"

definition two_names :: "string list" where
  "two_names = [''a.jpg'', ''b.jpg'']"

definition same_base_names :: "string list" where
  "same_base_names = [''d1/x.jpg'', ''d2/x.jpg'']"

text \<open>A run without metadata files.\<close>

definition no_metadata :: "string list \<Rightarrow> unit metadata" where
  "no_metadata image_filenames = Map.empty"

text \<open>The rows these inputs produce with \<open>k = 1\<close>, as evaluated further down.\<close>

definition two_point_edges :: "edge list" where
  "two_point_edges =
     [\<lparr>source = ''a.jpg'', target = ''b.jpg'', weight = 100000 / 100001, distance = 1,
       rank = 1, source_x = 0, source_y = 0, target_x = 1, target_y = 0\<rparr>,
      \<lparr>source = ''b.jpg'', target = ''a.jpg'', weight = 100000 / 100001, distance = 1,
       rank = 1, source_x = 1, source_y = 0, target_x = 0, target_y = 0\<rparr>]"


definition coincident_edges_stable :: "edge list" where
  "coincident_edges_stable =
     [\<lparr>source = ''a.jpg'', target = ''b.jpg'', weight = 100000, distance = 0,
       rank = 1, source_x = 0, source_y = 0, target_x = 0, target_y = 0\<rparr>,
      \<lparr>source = ''b.jpg'', target = ''b.jpg'', weight = 100000, distance = 0,
       rank = 1, source_x = 0, source_y = 0, target_x = 0, target_y = 0\<rparr>]"

definition coincident_edges_ties_desc :: "edge list" where
  "coincident_edges_ties_desc =
     [\<lparr>source = ''a.jpg'', target = ''a.jpg'', weight = 100000, distance = 0,
       rank = 1, source_x = 0, source_y = 0, target_x = 0, target_y = 0\<rparr>,
      \<lparr>source = ''b.jpg'', target = ''a.jpg'', weight = 100000, distance = 0,
       rank = 1, source_x = 0, source_y = 0, target_x = 0, target_y = 0\<rparr>]"

text \<open>Five file names for two positions, and two points in three dimensions.\<close>

definition five_names :: "string list" where
  "five_names = [''a.jpg'', ''b.jpg'', ''c.jpg'', ''d.jpg'', ''e.jpg'']"

definition points_3d :: "point list" where
  "points_3d = [[0, 0, 0], [1, 0, 0]]"

text \<open>
  Metadata for \<open>a.jpg\<close> with a field of its own, metadata with a field named \<open>x\<close>, and the
  node rows of \<open>two_point_edges\<close> under the first.
\<close>

definition year_metadata :: "unit metadata" where
  "year_metadata = [''a.jpg'' \<mapsto> [(''filename'', Str ''a.jpg''), (''year'', Str ''1901'')]]"

definition x_metadata :: "unit metadata" where
  "x_metadata = [''a.jpg'' \<mapsto> [(''x'', Str ''left'')]]"

definition two_point_nodes :: "unit node_data list" where
  "two_point_nodes =
     [[(''id'', Str ''a.jpg''), (''x'', Float 0), (''y'', Float 0), (''year'', Str ''1901'')],
      [(''id'', Str ''b.jpg''), (''x'', Float 1), (''y'', Float 0)]]"

definition two_point_nodes_x :: "unit node_data list" where
  "two_point_nodes_x =
     [[(''id'', Str ''a.jpg''), (''x'', Str ''left''), (''y'', Float 0)],
      [(''id'', Str ''b.jpg''), (''x'', Float 1), (''y'', Float 0)]]"

section \<open>Library facts\<close>

lemma argsort_spec_mset: "argsort_spec f \<Longrightarrow> mset (f xs) = mset [0..<length xs]"
  by (simp add: argsort_spec_def)

lemma argsort_spec_length: "argsort_spec f \<Longrightarrow> length (f xs) = length xs"
  using argsort_spec_mset [of f xs] by (metis length_upt mset_eq_length minus_nat.diff_0)

lemma argsort_spec_set: "argsort_spec f \<Longrightarrow> set (f xs) = {0..<length xs}"
  using argsort_spec_mset [of f xs] by (metis mset_eq_setD set_upt)

lemma argsort_spec_distinct: "argsort_spec f \<Longrightarrow> distinct (f xs)"
  using argsort_spec_mset [of f xs] by (metis distinct_upt mset_eq_imp_distinct_iff)

lemma argsort_spec_sorted: "argsort_spec f \<Longrightarrow> sorted (map (\<lambda>i. xs ! i) (f xs))"
  by (simp add: argsort_spec_def)

lemma stable_argsort_spec: "argsort_spec stable_argsort"
  by (simp add: argsort_spec_def stable_argsort_def)

lemma ties_desc_argsort_spec: "argsort_spec ties_desc_argsort"
  by (simp add: argsort_spec_def ties_desc_argsort_def)

lemma slice_bound_1: "slice_bound n 1 = min 1 n"
  by (simp add: slice_bound_def)

lemma slice_bound_le: "slice_bound n i \<le> n"
  unfolding slice_bound_def by (cases "i < 0") simp_all

lemma py_slice_from_1: "py_slice xs 1 stop = take (slice_bound (length xs) stop - 1) (drop 1 xs)"
proof (cases xs)
  case Nil
  then show ?thesis by (simp add: py_slice_def Let_def)
next
  case (Cons x ys)
  then have "slice_bound (length xs) 1 = 1" by (simp add: slice_bound_1)
  then show ?thesis by (simp add: py_slice_def Let_def)
qed

lemma length_py_slice_from_1: "length (py_slice xs 1 stop) = slice_bound (length xs) stop - 1"
  using slice_bound_le [of "length xs" stop] by (simp add: py_slice_from_1)

lemma cdist_self: "is_2d X \<Longrightarrow> cdist X X = Inr (map (\<lambda>u. map (euclidean u) X) X)"
  by (simp add: cdist_def)

lemma find_nearest_neighbors_2d:
  assumes "is_2d positions"
  shows "find_nearest_neighbors argsort positions k =
           Inr (map (neighbors_of argsort positions k) [0..<length positions])"
proof -
  have "map (\<lambda>i. py_slice (argsort (map (\<lambda>u. map (euclidean u) positions) positions ! i)) 1 (k + 1))
            [0..<length positions]
        = map (neighbors_of argsort positions k) [0..<length positions]"
    by (rule map_cong) (simp_all add: neighbors_of_def)
  then show ?thesis
    using assms by (simp add: find_nearest_neighbors_def cdist_self Let_def)
qed


lemma neighbors_of_take_drop:
  "neighbors_of argsort positions k i =
     take (slice_bound (length (argsort (map (euclidean (positions ! i)) positions))) (k + 1) - 1)
          (drop 1 (argsort (map (euclidean (positions ! i)) positions)))"
  by (simp add: neighbors_of_def py_slice_from_1)

lemma length_neighbors_of:
  "argsort_spec argsort \<Longrightarrow>
   length (neighbors_of argsort positions k i) = slice_bound (length positions) (k + 1) - 1"
  by (simp add: neighbors_of_def length_py_slice_from_1 argsort_spec_length)

lemma set_neighbors_of:
  assumes "argsort_spec argsort"
  shows "set (neighbors_of argsort positions k i) \<subseteq> {0..<length positions}"
proof -
  have "set (neighbors_of argsort positions k i)
          \<subseteq> set (argsort (map (euclidean (positions ! i)) positions))"
    unfolding neighbors_of_take_drop
    by (meson set_take_subset set_drop_subset subset_trans)
  then show ?thesis
    using argsort_spec_set [OF assms, of "map (euclidean (positions ! i)) positions"] by simp
qed

lemma sorted_neighbors_of:
  assumes "argsort_spec argsort"
  shows "sorted (map (\<lambda>j. euclidean (positions ! i) (positions ! j))
                     (neighbors_of argsort positions k i))"
proof -
  let ?row = "map (euclidean (positions ! i)) positions"
  have "sorted (map (\<lambda>j. ?row ! j) (argsort ?row))"
    by (rule argsort_spec_sorted [OF assms])
  then have "sorted (map (\<lambda>j. ?row ! j) (neighbors_of argsort positions k i))"
    unfolding neighbors_of_take_drop
    by (simp flip: take_map drop_map del: drop_Suc_Cons)
  moreover have "map (\<lambda>j. ?row ! j) (neighbors_of argsort positions k i)
                 = map (\<lambda>j. euclidean (positions ! i) (positions ! j))
                       (neighbors_of argsort positions k i)"
    using set_neighbors_of [OF assms, of positions k i]
    by (intro map_cong) auto
  ultimately show ?thesis by simp
qed

section \<open>The scenario inputs, evaluated\<close>

lemma upt4: "[0..<4] = [0,1,2,3]" by (simp add: upt_rec)

lemma four_points_2d: "is_2d four_points" "length four_points = 4"
  by (simp_all add: is_2d_def ncols_def four_points_def)

lemma four_points_rows:
  "map (euclidean (four_points ! 0)) four_points = [0, 1, 1, sqrt 50]"
  "map (euclidean (four_points ! Suc 0)) four_points = [1, 0, sqrt 2, sqrt 41]"
  "map (euclidean (four_points ! 2)) four_points = [1, sqrt 2, 0, sqrt 41]"
  "map (euclidean (four_points ! 3)) four_points = [sqrt 50, sqrt 41, sqrt 41, 0]"
  by (simp_all add: four_points_def euclidean_def)

lemma stable_argsort_four:
  "stable_argsort [0, 1, 1, sqrt 50] = [0, 1, 2, 3]"
  "stable_argsort [1, 0, sqrt 2, sqrt 41] = [1, 0, 2, 3]"
  "stable_argsort [1, sqrt 2, 0, sqrt 41] = [2, 0, 1, 3]"
  "stable_argsort [sqrt 50, sqrt 41, sqrt 41, 0] = [3, 1, 2, 0]"
  by (simp_all add: stable_argsort_def upt4)

lemma find_nearest_neighbors_stable_four: "find_nearest_neighbors stable_argsort four_points 2 = Inr [[1, 2], [0, 2], [0, 1], [1, 2]]"
  by (simp add: find_nearest_neighbors_2d four_points_2d upt4 neighbors_of_def four_points_rows
        stable_argsort_four py_slice_def slice_bound_def)


lemma slice_bound_pos:
  assumes "1 \<le> k" "1 \<le> n"
  shows "int (slice_bound n (k + 1) - 1) = min k (int n - 1)"
  using assms unfolding slice_bound_def by (simp add: min_def nat_le_iff)

section \<open>Neighbour search\<close>

text \<open>
  Claim C2. For an array of \<open>N \<ge> 1\<close> points (\<open>is_2d\<close>) and \<open>k \<ge> 1\<close>, the function returns
  \<open>N\<close> lists; list \<open>i\<close> has length \<open>min k (N - 1)\<close>, holds indices of the input, and is
  ordered by distance from point \<open>i\<close>.
\<close>

theorem C2_neighbor_list_length:
  assumes "argsort_spec argsort" and "is_2d positions" and "1 \<le> k"
  shows "\<exists>neighbors.
           find_nearest_neighbors argsort positions k = Inr neighbors
         \<and> length neighbors = length positions
         \<and> (\<forall>i<length positions.
               int (length (neighbors ! i)) = min k (int (length positions) - 1)
             \<and> set (neighbors ! i) \<subseteq> {0..<length positions}
             \<and> sorted (map (\<lambda>j. euclidean (positions ! i) (positions ! j)) (neighbors ! i)))"
proof -
  let ?nb = "map (neighbors_of argsort positions k) [0..<length positions]"
  have n1: "1 \<le> length positions"
    using assms(2) by (cases positions) (simp_all add: is_2d_def)
  have "find_nearest_neighbors argsort positions k = Inr ?nb"
    by (rule find_nearest_neighbors_2d [OF assms(2)])
  moreover have "length ?nb = length positions" by simp
  moreover have "int (length (?nb ! i)) = min k (int (length positions) - 1)
             \<and> set (?nb ! i) \<subseteq> {0..<length positions}
             \<and> sorted (map (\<lambda>j. euclidean (positions ! i) (positions ! j)) (?nb ! i))"
    if "i < length positions" for i
    using that slice_bound_pos [OF assms(3) n1] set_neighbors_of [OF assms(1), of positions k i]
      sorted_neighbors_of [OF assms(1), of positions i k]
    by (simp add: length_neighbors_of [OF assms(1)])
  ultimately show ?thesis by blast
qed

theorem C2_neighbor_list_length_witness:
  "argsort_spec stable_argsort \<and> is_2d four_points \<and> (1::int) \<le> 2
   \<and> find_nearest_neighbors stable_argsort four_points 2 = Inr [[1, 2], [0, 2], [0, 1], [1, 2]]
   \<and> length four_points = 4 \<and> min (2::int) (int (length four_points) - 1) = 2"
  using C2_neighbor_list_length [of stable_argsort four_points 2]
  by (simp add: stable_argsort_spec four_points_2d find_nearest_neighbors_stable_four)

section \<open>Edge assembly: the result in closed form\<close>

lemma traverse_Inr_map:
  "(\<And>x. x \<in> set xs \<Longrightarrow> f x = Inr (g x)) \<Longrightarrow> traverse f xs = Inr (map g xs)"
  by (induction xs) simp_all


lemma is_2d_nth: "is_2d X \<Longrightarrow> i < length X \<Longrightarrow> length (X ! i) = ncols X"
  by (simp add: is_2d_def list_all_length)

lemma ncols_take: "0 < m \<Longrightarrow> ncols (take m X) = ncols X"
  by (cases X; cases m) (simp_all add: ncols_def)

lemma is_2d_take:
  assumes "list_all (\<lambda>p. length p = ncols X) X" "0 < m" "X \<noteq> []"
  shows "is_2d (take m X)"
proof -
  have "list_all (\<lambda>p. length p = ncols X) (take m X)"
    using assms(1) by (auto simp: list_all_iff dest: in_set_takeD)
  moreover have "take m X \<noteq> []" using assms(2,3) by (cases X; cases m) simp_all
  ultimately show ?thesis
    by (simp add: is_2d_def ncols_take [OF assms(2)])
qed

lemma case_pair_list:
  "length p = 2 \<Longrightarrow> (case p of [x, y] \<Rightarrow> f x y | _ \<Rightarrow> d) = f (p ! 0) (p ! Suc 0)"
  by (cases p; cases "tl p"; cases "tl (tl p)") simp_all

lemma case_not_pair_list:
  "length p \<noteq> 2 \<Longrightarrow> (case p of [x, y] \<Rightarrow> f x y | _ \<Rightarrow> d) = d"
  by (cases p; cases "tl p"; cases "tl (tl p)") simp_all

lemma case_two_or_more:
  "length p = 2 \<Longrightarrow> (case p of x # y # _ \<Rightarrow> f x y | _ \<Rightarrow> d) = f (p ! 0) (p ! Suc 0)"
  by (cases p; cases "tl p") simp_all

lemma in_set_enumerate_snd: "x \<in> set (enumerate m xs) \<Longrightarrow> snd x \<in> set xs"
  by (metis enumerate_eq_zip set_zip_rightD prod.collapse)

lemma make_row_ok:
  assumes "n < length image_filenames" "n < length positions" "length (positions ! n) = 2"
  shows "make_row positions image_filenames i (positions ! i ! 0) (positions ! i ! Suc 0) (j, n)
           = Inr (edge_of positions image_filenames i j n)"
  using assms by (simp add: make_row_def edge_of_def Let_def case_two_or_more)

lemma rows_for_point_ok:
  assumes spec: "argsort_spec argsort" and "is_2d positions" "ncols positions = 2"
    and len: "length image_filenames = length positions" and i: "i < length positions"
  shows "rows_for_point positions image_filenames
           (map (neighbors_of argsort positions k) [0..<length positions]) i
         = Inr (point_edges argsort positions image_filenames k i)"
proof -
  have row_len: "length (positions ! n) = 2" if "n < length positions" for n
    using assms(2,3) that by (simp add: is_2d_nth)
  have "traverse (make_row positions image_filenames i (positions ! i ! 0) (positions ! i ! Suc 0))
          (enumerate 0 (neighbors_of argsort positions k i))
        = Inr (map (\<lambda>(j, n). edge_of positions image_filenames i j n)
                 (enumerate 0 (neighbors_of argsort positions k i)))"
  proof (rule traverse_Inr_map)
    fix x assume "x \<in> set (enumerate 0 (neighbors_of argsort positions k i))"
    then have "snd x \<in> set (neighbors_of argsort positions k i)"
      by (rule in_set_enumerate_snd)
    then obtain j n where x: "x = (j, n)" and "n \<in> set (neighbors_of argsort positions k i)"
      by (cases x) simp
    then have "n < length positions"
      using set_neighbors_of [OF spec, of positions k i] by auto
    then show "make_row positions image_filenames i (positions ! i ! 0) (positions ! i ! Suc 0) x
                 = Inr (case x of (j, n) \<Rightarrow> edge_of positions image_filenames i j n)"
      using len row_len by (simp add: x make_row_ok)
  qed
  then show ?thesis
    using i row_len [OF i]
    by (simp add: rows_for_point_def Let_def case_pair_list point_edges_def)
qed

lemma rows_for_point_not_pair:
  "length (positions ! i) \<noteq> 2 \<Longrightarrow>
   rows_for_point positions image_filenames neighbors i = Inl ValueError"
  by (simp add: rows_for_point_def Let_def case_not_pair_list)


lemma extract_network_data_unfold:
  assumes "image_filenames0 \<noteq> []"
  shows "extract_network_data argsort load_metadata positions0 image_filenames0 k inc =
    (case np_array positions0 of
       Inl e \<Rightarrow> Inl e
     | Inr _ \<Rightarrow>
        (case find_nearest_neighbors argsort
                (take (min (length positions0) (length image_filenames0)) positions0) k of
           Inl e \<Rightarrow> Inl e
         | Inr neighbors \<Rightarrow>
            (case traverse
                    (rows_for_point
                       (take (min (length positions0) (length image_filenames0)) positions0)
                       (take (min (length positions0) (length image_filenames0)) image_filenames0)
                       neighbors)
                    [0..<min (length positions0) (length image_filenames0)] of
               Inl e \<Rightarrow> Inl e
             | Inr blocks \<Rightarrow>
                 Inr (printed_lines (length positions0) (length image_filenames0) k inc
                        (length (concat blocks)),
                      concat blocks,
                      if inc
                      then load_metadata
                             (take (min (length positions0) (length image_filenames0))
                                image_filenames0)
                      else Map.empty))))"
proof (cases "length positions0 = length image_filenames0")
  case True
  then show ?thesis
    using assms
    by (simp add: extract_network_data_def np_array_def printed_lines_def Let_def
          split: sum.splits)
next
  case False
  then show ?thesis
    using assms
    by (simp add: extract_network_data_def np_array_def printed_lines_def Let_def
          split: sum.splits)
qed

lemma np_array_2d: "is_2d X \<Longrightarrow> np_array X = Inr X"
  by (simp add: np_array_def is_2d_def)

lemma extract_network_data_ok:
  assumes spec: "argsort_spec argsort" and fs: "image_filenames0 \<noteq> []"
    and X: "is_2d positions0" and D: "ncols positions0 = 2"
  shows "extract_network_data argsort load_metadata positions0 image_filenames0 k inc =
           Inr (printed_lines (length positions0) (length image_filenames0) k inc
                  (length (all_edges argsort positions0 image_filenames0 k)),
                all_edges argsort positions0 image_filenames0 k,
                if inc
                then load_metadata
                       (take (min (length positions0) (length image_filenames0)) image_filenames0)
                else Map.empty)"
proof -
  define m where "m = min (length positions0) (length image_filenames0)"
  define P where "P = take m positions0"
  define F where "F = take m image_filenames0"
  have m: "0 < m" using fs X by (simp add: m_def is_2d_def)
  have P2d: "is_2d P" unfolding P_def
    using X m by (intro is_2d_take) (simp_all add: is_2d_def)
  have PD: "ncols P = 2" unfolding P_def using D m by (simp add: ncols_take)
  have lenP: "length P = m" and lenF: "length F = m"
    by (simp_all add: P_def F_def m_def)
  have nb: "find_nearest_neighbors argsort P k
              = Inr (map (neighbors_of argsort P k) [0..<length P])"
    by (rule find_nearest_neighbors_2d [OF P2d])
  have "traverse (rows_for_point P F (map (neighbors_of argsort P k) [0..<length P])) [0..<m]
          = Inr (map (point_edges argsort P F k) [0..<m])"
  proof (rule traverse_Inr_map)
    fix i assume "i \<in> set [0..<m]"
    then have "i < length P" by (simp add: lenP)
    from rows_for_point_ok [OF spec P2d PD _ this, of F k]
    show "rows_for_point P F (map (neighbors_of argsort P k) [0..<length P]) i
            = Inr (point_edges argsort P F k i)"
      by (simp add: lenP lenF)
  qed
  then show ?thesis
    using nb np_array_2d [OF X]
    unfolding extract_network_data_unfold [OF fs] all_edges_def Let_def
    by (simp add: m_def [symmetric] P_def [symmetric] F_def [symmetric])
qed


section \<open>The rows of one point\<close>

lemma length_point_edges:
  "length (point_edges argsort P F k i) = length (neighbors_of argsort P k i)"
  by (simp add: point_edges_def)







lemma in_all_edgesD:
  assumes spec: "argsort_spec argsort"
    and e: "e \<in> set (all_edges argsort positions0 image_filenames0 k)"
  shows "\<exists>i j n. i < min (length positions0) (length image_filenames0)
               \<and> n < min (length positions0) (length image_filenames0)
               \<and> e = edge_of (take (min (length positions0) (length image_filenames0)) positions0)
                            (take (min (length positions0) (length image_filenames0)) image_filenames0)
                            i j n"
proof -
  define m where "m = min (length positions0) (length image_filenames0)"
  define P where "P = take m positions0"
  define F where "F = take m image_filenames0"
  have lenP: "length P = m" by (simp add: P_def m_def)
  from e obtain i where i: "i < m" and "e \<in> set (point_edges argsort P F k i)"
    by (auto simp: all_edges_def Let_def m_def [symmetric] P_def [symmetric] F_def [symmetric])
  then obtain x where x: "x \<in> set (enumerate 0 (neighbors_of argsort P k i))"
    and ex: "e = (case x of (j, n) \<Rightarrow> edge_of P F i j n)"
    by (auto simp: point_edges_def)
  have "snd x \<in> set (neighbors_of argsort P k i)"
    by (rule in_set_enumerate_snd [OF x])
  then have "snd x < m"
    using set_neighbors_of [OF spec, of P k i] lenP by auto
  with i ex show ?thesis
    unfolding m_def [symmetric] P_def [symmetric] F_def [symmetric]
    by (cases x) auto
qed

section \<open>Small inputs, evaluated\<close>

lemma upt2: "[0..<2] = [0, 1]" by (simp add: upt_rec)

lemma two_points_2d: "is_2d two_points" "ncols two_points = 2" "length two_points = 2"
  by (simp_all add: is_2d_def ncols_def two_points_def)

lemma coincident_points_2d:
  "is_2d coincident_points" "ncols coincident_points = 2" "length coincident_points = 2"
  by (simp_all add: is_2d_def ncols_def coincident_points_def)

lemma two_points_rows:
  "map (euclidean (two_points ! 0)) two_points = [0, 1]"
  "map (euclidean (two_points ! Suc 0)) two_points = [1, 0]"
  by (simp_all add: two_points_def euclidean_def)

lemma coincident_points_rows:
  "map (euclidean (coincident_points ! 0)) coincident_points = [0, 0]"
  "map (euclidean (coincident_points ! Suc 0)) coincident_points = [0, 0]"
  by (simp_all add: coincident_points_def euclidean_def)

lemma argsort_two:
  "stable_argsort [0, 1] = [0, 1]" "stable_argsort [1, 0] = [1, 0]"
  "stable_argsort [0, 0] = [0, 1]" "ties_desc_argsort [0, 0] = [1, 0]"
  by (simp_all add: stable_argsort_def ties_desc_argsort_def upt2)

lemma neighbors_of_two_points:
  "neighbors_of stable_argsort two_points 1 0 = [1]"
  "neighbors_of stable_argsort two_points 1 (Suc 0) = [0]"
  by (simp_all add: neighbors_of_def two_points_rows argsort_two py_slice_def slice_bound_def)

lemma neighbors_of_coincident_points:
  "neighbors_of stable_argsort coincident_points 1 0 = [1]"
  "neighbors_of stable_argsort coincident_points 1 (Suc 0) = [1]"
  "neighbors_of ties_desc_argsort coincident_points 1 0 = [0]"
  "neighbors_of ties_desc_argsort coincident_points 1 (Suc 0) = [0]"
  by (simp_all add: neighbors_of_def coincident_points_rows argsort_two py_slice_def
        slice_bound_def)

lemma basename_examples:
  "basename ''a.jpg'' = ''a.jpg''" "basename ''b.jpg'' = ''b.jpg''"
  "basename ''d1/x.jpg'' = ''x.jpg''" "basename ''d2/x.jpg'' = ''x.jpg''"
  by (simp_all add: basename_def)

lemma all_edges_two:
  "length positions0 = 2 \<Longrightarrow> length image_filenames0 = 2 \<Longrightarrow>
   all_edges argsort positions0 image_filenames0 k =
     point_edges argsort positions0 image_filenames0 k 0
       @ point_edges argsort positions0 image_filenames0 k (Suc 0)"
  by (simp add: all_edges_def upt2)

lemma all_edges_two_points:
  "all_edges stable_argsort two_points two_names 1 =
     [edge_of two_points two_names 0 0 1, edge_of two_points two_names 1 0 0]"
  by (simp add: all_edges_two two_points_2d two_names_def point_edges_def
        neighbors_of_two_points)


lemma all_edges_coincident_points:
  "all_edges stable_argsort coincident_points two_names 1 =
     [edge_of coincident_points two_names 0 0 1, edge_of coincident_points two_names 1 0 1]"
  "all_edges ties_desc_argsort coincident_points two_names 1 =
     [edge_of coincident_points two_names 0 0 0, edge_of coincident_points two_names 1 0 0]"
  by (simp_all add: all_edges_two coincident_points_2d two_names_def point_edges_def
        neighbors_of_coincident_points)

lemma edge_of_two_points:
  "edge_of two_points two_names 0 0 1 =
     \<lparr>source = ''a.jpg'', target = ''b.jpg'', weight = 100000 / 100001, distance = 1, rank = 1,
      source_x = 0, source_y = 0, target_x = 1, target_y = 0\<rparr>"
  "edge_of two_points two_names 1 0 0 =
     \<lparr>source = ''b.jpg'', target = ''a.jpg'', weight = 100000 / 100001, distance = 1, rank = 1,
      source_x = 1, source_y = 0, target_x = 0, target_y = 0\<rparr>"
  by (simp_all add: edge_of_def two_points_def two_names_def basename_examples euclidean_def)

lemma edge_of_coincident_points:
  "edge_of coincident_points two_names 0 0 1 =
     \<lparr>source = ''a.jpg'', target = ''b.jpg'', weight = 100000, distance = 0, rank = 1,
      source_x = 0, source_y = 0, target_x = 0, target_y = 0\<rparr>"
  "edge_of coincident_points two_names 1 0 1 =
     \<lparr>source = ''b.jpg'', target = ''b.jpg'', weight = 100000, distance = 0, rank = 1,
      source_x = 0, source_y = 0, target_x = 0, target_y = 0\<rparr>"
  "edge_of coincident_points two_names 0 0 0 =
     \<lparr>source = ''a.jpg'', target = ''a.jpg'', weight = 100000, distance = 0, rank = 1,
      source_x = 0, source_y = 0, target_x = 0, target_y = 0\<rparr>"
  "edge_of coincident_points two_names 1 0 0 =
     \<lparr>source = ''b.jpg'', target = ''a.jpg'', weight = 100000, distance = 0, rank = 1,
      source_x = 0, source_y = 0, target_x = 0, target_y = 0\<rparr>"
  by (simp_all add: edge_of_def coincident_points_def two_names_def basename_examples
        euclidean_def)


section \<open>The rows of one source\<close>





lemma names_length: "length two_names = 2" "length same_base_names = 2"
  "two_names \<noteq> []" "same_base_names \<noteq> []"
  by (simp_all add: two_names_def same_base_names_def)

lemma extract_two_points:
  "extract_network_data stable_argsort no_metadata two_points two_names 1 False =
     Inr (printed_lines 2 2 1 False 2,
          two_point_edges,
          Map.empty)"
proof -
  have "two_names \<noteq> []" by (rule names_length)
  from extract_network_data_ok [OF stable_argsort_spec this two_points_2d(1,2),
      of no_metadata 1 False]
  show ?thesis
    unfolding all_edges_two_points edge_of_two_points two_point_edges_def
    by (simp add: two_points_2d names_length numeral_2_eq_2)
qed


lemma extract_coincident_points_stable:
  "extract_network_data stable_argsort no_metadata coincident_points two_names 1 False =
     Inr (printed_lines 2 2 1 False 2,
          coincident_edges_stable,
          Map.empty)"
proof -
  have "two_names \<noteq> []" by (rule names_length)
  from extract_network_data_ok [OF stable_argsort_spec this coincident_points_2d(1,2),
      of no_metadata 1 False]
  show ?thesis
    unfolding all_edges_coincident_points edge_of_coincident_points coincident_edges_stable_def
    by (simp add: coincident_points_2d names_length numeral_2_eq_2)
qed

lemma extract_coincident_points_ties_desc:
  "extract_network_data ties_desc_argsort no_metadata coincident_points two_names 1 False =
     Inr (printed_lines 2 2 1 False 2,
          coincident_edges_ties_desc,
          Map.empty)"
proof -
  have "two_names \<noteq> []" by (rule names_length)
  from extract_network_data_ok [OF ties_desc_argsort_spec this coincident_points_2d(1,2),
      of no_metadata 1 False]
  show ?thesis
    unfolding all_edges_coincident_points edge_of_coincident_points coincident_edges_ties_desc_def
    by (simp add: coincident_points_2d names_length numeral_2_eq_2)
qed


lemma four_names_facts:
  "four_names \<noteq> []" "length four_names = 4"
  "distinct (map basename (take (length four_points) four_names))"
  "basename (four_names ! 0) = ''a.jpg''"
  by (simp_all add: four_names_def four_points_2d basename_def)

lemma four_points_ncols: "ncols four_points = 2"
  by (simp add: ncols_def four_points_def)





text \<open>Whatever order the sort gives to ties, two coincident points produce a self-loop.\<close>

lemma coincident_points_self_loop:
  assumes "argsort_spec argsort"
  shows "\<exists>e\<in>set (all_edges argsort coincident_points two_names 1). source e = target e"
proof -
  define L where "L = argsort [0, 0]"
  define n where "n = L ! 1"
  have len: "length L = 2"
    unfolding L_def using argsort_spec_length [OF assms, of "[0, 0]"] by simp
  have "set L = {0..<Suc (Suc 0)}"
    unfolding L_def using argsort_spec_set [OF assms, of "[0, 0]"] by simp
  moreover have "n \<in> set L" unfolding n_def using len by simp
  ultimately have n: "n = 0 \<or> n = Suc 0" by auto
  have slice: "py_slice L 1 (1 + 1) = [n]"
    unfolding py_slice_from_1 n_def using len
    by (cases L; cases "tl L") (simp_all add: slice_bound_def)
  have nb: "neighbors_of argsort coincident_points 1 i = [n]" if "i = 0 \<or> i = Suc 0" for i
    using that slice by (auto simp: neighbors_of_def coincident_points_rows L_def)
  have edges: "all_edges argsort coincident_points two_names 1
                 = [edge_of coincident_points two_names 0 0 n,
                    edge_of coincident_points two_names (Suc 0) 0 n]"
    by (simp add: all_edges_two coincident_points_2d names_length point_edges_def nb)
  have "source (edge_of coincident_points two_names n 0 n)
          = target (edge_of coincident_points two_names n 0 n)"
    by (simp add: edge_of_def)
  then show ?thesis
    unfolding edges using n by auto
qed

section \<open>Edge assembly\<close>

text \<open>
  Claim C3. The claim says that no emitted edge has \<open>source = target\<close>, also when points
  coincide. The code drops the first entry of each sorted row, taking it to be the point
  itself (``Skip the first one (itself)''); with two points at the same place both rows of
  the distance matrix are \<open>[0, 0]\<close>, \<^verbatim>\<open>np.argsort\<close> returns the same order for both, and
  for one of the two points the entry dropped is the other point and the entry kept is the
  point itself. With ties in index order the run emits \<open>b.jpg \<rightarrow> b.jpg\<close>; with ties in
  descending index order it emits \<open>a.jpg \<rightarrow> a.jpg\<close>.
\<close>

theorem C3_self_loop_on_coincident_points:
  "extract_network_data stable_argsort no_metadata coincident_points two_names 1 False
     = Inr (printed_lines 2 2 1 False 2, coincident_edges_stable, Map.empty)
   \<and> map (\<lambda>e. (source e, target e)) coincident_edges_stable
       = [(''a.jpg'', ''b.jpg''), (''b.jpg'', ''b.jpg'')]
   \<and> extract_network_data ties_desc_argsort no_metadata coincident_points two_names 1 False
       = Inr (printed_lines 2 2 1 False 2, coincident_edges_ties_desc, Map.empty)
   \<and> map (\<lambda>e. (source e, target e)) coincident_edges_ties_desc
       = [(''a.jpg'', ''a.jpg''), (''b.jpg'', ''a.jpg'')]"
  by (simp add: extract_coincident_points_stable extract_coincident_points_ties_desc
        coincident_edges_stable_def coincident_edges_ties_desc_def)





section \<open>Truncation, dimension and neighbour counts\<close>

lemma all_edges_take:
  "all_edges argsort
     (take (min (length positions0) (length image_filenames0)) positions0)
     (take (min (length positions0) (length image_filenames0)) image_filenames0) k
   = all_edges argsort positions0 image_filenames0 k"
  by (simp add: all_edges_def Let_def min_def)

lemma printed_lines_mismatch:
  "n \<noteq> n' \<Longrightarrow>
   printed_lines n n' k inc c = Warning_count_mismatch n n' # printed_lines m m k inc c"
  by (simp add: printed_lines_def)

lemma target_all_edges:
  assumes "argsort_spec argsort" "e \<in> set (all_edges argsort positions0 image_filenames0 k)"
  shows "source e \<in> basename ` set (take (min (length positions0) (length image_filenames0))
                                      image_filenames0)
       \<and> target e \<in> basename ` set (take (min (length positions0) (length image_filenames0))
                                      image_filenames0)"
proof -
  define m where "m = min (length positions0) (length image_filenames0)"
  define F where "F = take m image_filenames0"
  have lenF: "length F = m" by (simp add: F_def m_def)
  from in_all_edgesD [OF assms] obtain i j n where i: "i < m" and n: "n < m"
    and e: "e = edge_of (take m positions0) F i j n"
    unfolding m_def F_def by blast
  have "F ! i \<in> set F" "F ! n \<in> set F" using i n lenF by simp_all
  then show ?thesis
    unfolding m_def [symmetric] F_def [symmetric]
    by (simp add: e edge_of_def)
qed

text \<open>
  With at least one position, coordinate pairs and a non-empty image list whose lengths
  differ, the run prints the warning and returns the rows of the common prefixes: what the
  run on the two prefixes returns (which prints no warning), every row naming images of
  the prefix.
\<close>

lemma length_mismatch_truncates:
  assumes "argsort_spec argsort" and "is_2d positions0" and "ncols positions0 = 2"
    and "image_filenames0 \<noteq> []" and "length positions0 \<noteq> length image_filenames0"
  shows "\<exists>printed network_data metadata.
           extract_network_data argsort load_metadata positions0 image_filenames0 k inc
             = Inr (Warning_count_mismatch (length positions0) (length image_filenames0) # printed,
                    network_data, metadata)
         \<and> extract_network_data argsort load_metadata
               (take (min (length positions0) (length image_filenames0)) positions0)
               (take (min (length positions0) (length image_filenames0)) image_filenames0) k inc
             = Inr (printed, network_data, metadata)
         \<and> network_data
             = all_edges argsort
                 (take (min (length positions0) (length image_filenames0)) positions0)
                 (take (min (length positions0) (length image_filenames0)) image_filenames0) k
         \<and> Warning_count_mismatch (length positions0) (length image_filenames0) \<notin> set printed
         \<and> (\<forall>e\<in>set network_data.
               source e \<in> basename ` set (take (min (length positions0) (length image_filenames0))
                                            image_filenames0)
             \<and> target e \<in> basename ` set (take (min (length positions0) (length image_filenames0))
                                            image_filenames0))"
proof -
  define m where "m = min (length positions0) (length image_filenames0)"
  define P where "P = take m positions0"
  define F where "F = take m image_filenames0"
  define es where "es = all_edges argsort positions0 image_filenames0 k"
  define md where "md = (if inc then load_metadata F else Map.empty)"
  have m: "0 < m" using assms(2,4) by (simp add: m_def is_2d_def)
  have lenP: "length P = m" and lenF: "length F = m" by (simp_all add: P_def F_def m_def)
  have P2d: "is_2d P" unfolding P_def
    using assms(2) m by (intro is_2d_take) (simp_all add: is_2d_def)
  have PD: "ncols P = 2" unfolding P_def using assms(3) m by (simp add: ncols_take)
  have Fne: "F \<noteq> []" using lenF m by auto
  have es_P: "all_edges argsort P F k = es"
    unfolding P_def F_def m_def es_def by (rule all_edges_take)
  have full: "extract_network_data argsort load_metadata positions0 image_filenames0 k inc
      = Inr (Warning_count_mismatch (length positions0) (length image_filenames0)
               # printed_lines m m k inc (length es), es, md)"
    using extract_network_data_ok [OF assms(1,4,2,3), of load_metadata k inc]
      printed_lines_mismatch [OF assms(5), of k inc "length es" m]
    by (simp add: es_def md_def F_def m_def)
  have trunc: "extract_network_data argsort load_metadata P F k inc
      = Inr (printed_lines m m k inc (length es), es, md)"
    using extract_network_data_ok [OF assms(1) Fne P2d PD, of load_metadata k inc]
    by (simp add: es_P lenP lenF md_def)
  have nowarn: "Warning_count_mismatch (length positions0) (length image_filenames0)
                  \<notin> set (printed_lines m m k inc (length es))"
    by (simp add: printed_lines_def)
  have names: "\<forall>e\<in>set es. source e \<in> basename ` set F \<and> target e \<in> basename ` set F"
    unfolding es_def F_def m_def using target_all_edges [OF assms(1)] by blast
  have closed: "es = all_edges argsort P F k" by (rule es_P [symmetric])
  show ?thesis
    using full trunc closed nowarn names unfolding P_def F_def m_def by blast
qed

lemma five_names_facts:
  "five_names \<noteq> []" "length five_names = 5" "take 2 five_names = two_names"
  by (simp_all add: five_names_def two_names_def)

text \<open>Two positions and five file names: the rows are those of the first two names.\<close>

lemma length_mismatch_two_of_five:
  "extract_network_data stable_argsort no_metadata two_points five_names 1 False
     = Inr (Warning_count_mismatch 2 5 # printed_lines 2 2 1 False 2, two_point_edges,
            Map.empty)"
proof -
  have ne: "length two_points \<noteq> length five_names"
    by (simp add: two_points_2d five_names_facts)
  have m: "min (length two_points) (length five_names) = 2"
    by (simp add: two_points_2d five_names_facts)
  have P: "take 2 two_points = two_points" by (simp add: two_points_2d)
  from length_mismatch_truncates
         [OF stable_argsort_spec two_points_2d(1,2) five_names_facts(1) ne,
          of no_metadata 1 False]
  obtain printed network_data metadata where
    full: "extract_network_data stable_argsort no_metadata two_points five_names 1 False
             = Inr (Warning_count_mismatch (length two_points) (length five_names) # printed,
                    network_data, metadata)"
    and trunc: "extract_network_data stable_argsort no_metadata two_points two_names 1 False
             = Inr (printed, network_data, metadata)"
    unfolding m P five_names_facts(3) by blast
  from trunc have "printed = printed_lines 2 2 1 False 2" "network_data = two_point_edges"
    "metadata = Map.empty"
    unfolding extract_two_points by simp_all
  with full show ?thesis
    by (simp add: two_points_2d five_names_facts)
qed

text \<open>
  With no position at all the truncated array is empty. \<^verbatim>\<open>np.array([])\<close> has shape
  \<open>(0,)\<close>, and \<^verbatim>\<open>cdist\<close> raises \<^verbatim>\<open>ValueError\<close> on it, whatever the image list, the
  neighbour count and the sort are.
\<close>

lemma extract_network_data_no_positions:
  assumes "image_filenames0 \<noteq> []"
  shows "extract_network_data argsort load_metadata [] image_filenames0 k inc = Inl ValueError"
  unfolding extract_network_data_unfold [OF assms]
  by (simp add: np_array_def ncols_def find_nearest_neighbors_def cdist_def is_2d_def)

text \<open>
  Claim C6. The claim says that a length mismatch is never fatal: both sequences are cut
  to the common prefix, a warning is printed and the run goes on (``Use the smaller number
  to avoid index errors''). With one position or more that is what the run does. A layout
  whose position list is empty, against an image list of two names, is a mismatch of \<open>0\<close>
  against \<open>2\<close>: the warning is printed, both sequences are cut to length \<open>0\<close>, and the
  neighbour search raises \<^verbatim>\<open>ValueError\<close>.
\<close>

theorem C6_empty_layout_is_fatal:
  "length ([] :: point list) \<noteq> length two_names
   \<and> extract_network_data stable_argsort no_metadata [] two_names 1 False = Inl ValueError"
  using extract_network_data_no_positions [of two_names stable_argsort no_metadata 1 False]
  by (simp add: names_length)

lemma traverse_first_Inl: "f x = Inl e \<Longrightarrow> traverse f (x # xs) = Inl e"
  by simp

lemma extract_network_data_not_pairs:
  assumes X: "is_2d positions0" and D: "ncols positions0 \<noteq> 2" and fs: "image_filenames0 \<noteq> []"
  shows "extract_network_data argsort load_metadata positions0 image_filenames0 k inc
           = Inl ValueError"
proof -
  define m where "m = min (length positions0) (length image_filenames0)"
  define P where "P = take m positions0"
  define F where "F = take m image_filenames0"
  have m: "0 < m" using fs X by (simp add: m_def is_2d_def)
  have P2d: "is_2d P" unfolding P_def
    using X m by (intro is_2d_take) (simp_all add: is_2d_def)
  have PD: "ncols P \<noteq> 2" unfolding P_def using D m by (simp add: ncols_take)
  have "0 < length P" using m by (simp add: P_def m_def)
  then have "length (P ! 0) = ncols P" using P2d by (simp add: is_2d_nth)
  then have row0: "rows_for_point P F neighbors 0 = Inl ValueError" for neighbors
    using PD by (intro rows_for_point_not_pair) simp
  have "[0..<m] = 0 # [1..<m]" using m by (simp add: upt_conv_Cons)
  then have "traverse (rows_for_point P F neighbors) [0..<m] = Inl ValueError" for neighbors
    using row0 by simp
  then show ?thesis
    using np_array_2d [OF X] find_nearest_neighbors_2d [OF P2d, of argsort k]
    unfolding extract_network_data_unfold [OF fs] m_def [symmetric] P_def [symmetric]
      F_def [symmetric]
    by simp
qed

lemma length_all_edges:
  "length (all_edges argsort positions0 image_filenames0 k)
     = sum_list (map length
         (map (neighbors_of argsort
                 (take (min (length positions0) (length image_filenames0)) positions0) k)
              [0..<min (length positions0) (length image_filenames0)]))"
  by (simp add: all_edges_def Let_def length_concat comp_def length_point_edges)

text \<open>
  Claim C9, as the code has it. The neighbour search returns one list per point for any
  number \<open>D \<ge> 1\<close> of columns. The edge assembly unpacks each position into
  \<^verbatim>\<open>pos_x, pos_y\<close>: for \<open>D = 2\<close> it returns one row per point and ranked neighbour, and
  for \<open>D \<noteq> 2\<close> it raises \<^verbatim>\<open>ValueError\<close> at the first point.
\<close>

theorem C9_pairs_only:
  assumes "argsort_spec argsort" and "is_2d positions0" and "0 < ncols positions0"
    and "image_filenames0 \<noteq> []"
  shows "(\<exists>neighbors. find_nearest_neighbors argsort positions0 k = Inr neighbors
                    \<and> length neighbors = length positions0)
       \<and> (ncols positions0 = 2 \<longrightarrow>
            (\<exists>printed network_data metadata neighbors.
               extract_network_data argsort load_metadata positions0 image_filenames0 k inc
                 = Inr (printed, network_data, metadata)
             \<and> find_nearest_neighbors argsort
                  (take (min (length positions0) (length image_filenames0)) positions0) k
                 = Inr neighbors
             \<and> length network_data = sum_list (map length neighbors)))
       \<and> (ncols positions0 \<noteq> 2 \<longrightarrow>
            extract_network_data argsort load_metadata positions0 image_filenames0 k inc
              = Inl ValueError)"
proof (intro conjI impI)
  show "\<exists>neighbors. find_nearest_neighbors argsort positions0 k = Inr neighbors
                   \<and> length neighbors = length positions0"
    by (simp add: find_nearest_neighbors_2d [OF assms(2)])
next
  assume D: "ncols positions0 = 2"
  define m where "m = min (length positions0) (length image_filenames0)"
  define P where "P = take m positions0"
  have m: "0 < m" using assms(2,4) by (simp add: m_def is_2d_def)
  have lenP: "length P = m" by (simp add: P_def m_def)
  have P2d: "is_2d P" unfolding P_def
    using assms(2) m by (intro is_2d_take) (simp_all add: is_2d_def)
  have "find_nearest_neighbors argsort P k
          = Inr (map (neighbors_of argsort P k) [0..<m])"
    using find_nearest_neighbors_2d [OF P2d, of argsort k] by (simp add: lenP)
  moreover have "length (all_edges argsort positions0 image_filenames0 k)
                   = sum_list (map length (map (neighbors_of argsort P k) [0..<m]))"
    unfolding P_def m_def by (rule length_all_edges)
  ultimately show "\<exists>printed network_data metadata neighbors.
               extract_network_data argsort load_metadata positions0 image_filenames0 k inc
                 = Inr (printed, network_data, metadata)
             \<and> find_nearest_neighbors argsort
                  (take (min (length positions0) (length image_filenames0)) positions0) k
                 = Inr neighbors
             \<and> length network_data = sum_list (map length neighbors)"
    using extract_network_data_ok [OF assms(1,4,2) D, of load_metadata k inc]
    unfolding P_def m_def by blast
next
  assume "ncols positions0 \<noteq> 2"
  then show "extract_network_data argsort load_metadata positions0 image_filenames0 k inc
               = Inl ValueError"
    by (rule extract_network_data_not_pairs [OF assms(2) _ assms(4)])
qed

lemma points_3d_facts:
  "is_2d points_3d" "ncols points_3d = 3" "length points_3d = 2"
  "map (euclidean (points_3d ! 0)) points_3d = [0, 1]"
  "map (euclidean (points_3d ! Suc 0)) points_3d = [1, 0]"
  by (simp_all add: is_2d_def ncols_def points_3d_def euclidean_def)

lemma find_nearest_neighbors_3d:
  "find_nearest_neighbors stable_argsort points_3d 1 = Inr [[1], [0]]"
  by (simp add: find_nearest_neighbors_2d points_3d_facts upt2 neighbors_of_def argsort_two
        py_slice_def slice_bound_def)

text \<open>Two points in three dimensions: the neighbour search succeeds, the assembly raises.\<close>

theorem C9_three_dimensions_counterexample:
  "is_2d points_3d \<and> ncols points_3d = 3
   \<and> find_nearest_neighbors stable_argsort points_3d 1 = Inr [[1], [0]]
   \<and> extract_network_data stable_argsort no_metadata points_3d two_names 1 False
       = Inl ValueError"
proof -
  have "ncols points_3d \<noteq> 2" by (simp add: points_3d_facts)
  from extract_network_data_not_pairs [OF points_3d_facts(1) this names_length(3)]
  show ?thesis
    by (simp add: points_3d_facts find_nearest_neighbors_3d)
qed

theorem C9_pairs_only_witness:
  "argsort_spec stable_argsort \<and> is_2d two_points \<and> 0 < ncols two_points \<and> two_names \<noteq> []
   \<and> ncols two_points = 2
   \<and> extract_network_data stable_argsort no_metadata two_points two_names 1 False
       = Inr (printed_lines 2 2 1 False 2, two_point_edges, Map.empty)
   \<and> length two_point_edges = 2
   \<and> is_2d points_3d \<and> 0 < ncols points_3d \<and> ncols points_3d \<noteq> 2
   \<and> extract_network_data stable_argsort no_metadata points_3d two_names 1 False
       = Inl ValueError"
proof -
  have pos: "0 < ncols points_3d" and ne: "ncols points_3d \<noteq> 2"
    by (simp_all add: points_3d_facts)
  from C9_pairs_only [OF stable_argsort_spec points_3d_facts(1) pos names_length(3),
      of 1 no_metadata False]
  have "extract_network_data stable_argsort no_metadata points_3d two_names 1 False
          = Inl ValueError"
    using ne by blast
  then show ?thesis
    by (simp add: stable_argsort_spec two_points_2d names_length extract_two_points
          points_3d_facts two_point_edges_def)
qed

lemma neighbors_of_nonpositive:
  "k = 0 \<or> k = - 1 \<Longrightarrow> neighbors_of argsort positions k i = []"
  by (auto simp: neighbors_of_def py_slice_from_1 slice_bound_def)

lemma length_neighbors_of_minus_2:
  "argsort_spec argsort \<Longrightarrow>
   length (neighbors_of argsort positions (- 2) i) = length positions - 2"
  by (simp add: length_neighbors_of slice_bound_def)

lemma all_edges_nonpositive:
  "k = 0 \<or> k = - 1 \<Longrightarrow> all_edges argsort positions0 image_filenames0 k = []"
  by (simp add: all_edges_def Let_def point_edges_def neighbors_of_nonpositive)

lemma write_csv_empty: "write_csv writable [] = (False, None)"
  by (simp add: write_csv_def)

lemma main_no_edges:
  assumes "extract_network_data argsort load_metadata positions0 image_filenames0 k inc
             = Inr (printed, [], metadata)"
  shows "main argsort load_metadata get_thumbnail_path get_original_path edges_writable
           nodes_writable positions0 image_filenames0 k include_thumbs inc = Inr (None, None)"
  by (simp add: main_def assms)

text \<open>
  Claim C10. With \<open>k = 0\<close> or \<open>k = -1\<close> every neighbour list is empty; with \<open>k = -2\<close>
  every list has length \<open>N - 2\<close>. \<^verbatim>\<open>write_csv\<close> on no rows returns \<^verbatim>\<open>False\<close> and writes no
  file. A run with \<open>k = 0\<close> or \<open>k = -1\<close> on coordinate pairs produces no rows, and
  \<^verbatim>\<open>main\<close> returns before any file is written.
\<close>

theorem C10_non_positive_neighbor_counts:
  assumes "argsort_spec argsort" and "is_2d positions"
  shows "find_nearest_neighbors argsort positions 0 = Inr (replicate (length positions) [])
       \<and> find_nearest_neighbors argsort positions (- 1) = Inr (replicate (length positions) [])
       \<and> (\<exists>neighbors. find_nearest_neighbors argsort positions (- 2) = Inr neighbors
                       \<and> length neighbors = length positions
                       \<and> (\<forall>l\<in>set neighbors. length l = length positions - 2))
       \<and> write_csv writable [] = (False, None)
       \<and> (ncols positions = 2 \<and> image_filenames \<noteq> [] \<and> (k = 0 \<or> k = - 1) \<longrightarrow>
            (\<exists>printed metadata.
               extract_network_data argsort load_metadata positions image_filenames k inc
                 = Inr (printed, [], metadata))
          \<and> main argsort load_metadata get_thumbnail_path get_original_path edges_writable
               nodes_writable positions image_filenames k include_thumbs inc
              = Inr (None, None))"
proof (intro conjI impI)
  have empty: "map (neighbors_of argsort positions k') [0..<length positions]
                 = replicate (length positions) []" if "k' = 0 \<or> k' = - 1" for k'
  proof -
    have "neighbors_of argsort positions k' = (\<lambda>i. [])"
      using that by (intro ext neighbors_of_nonpositive)
    then show ?thesis by (simp add: map_replicate_const)
  qed
  show "find_nearest_neighbors argsort positions 0 = Inr (replicate (length positions) [])"
    by (simp add: find_nearest_neighbors_2d [OF assms(2)] empty)
  show "find_nearest_neighbors argsort positions (- 1)
          = Inr (replicate (length positions) [])"
    by (simp add: find_nearest_neighbors_2d [OF assms(2)] empty)
  show "\<exists>neighbors. find_nearest_neighbors argsort positions (- 2) = Inr neighbors
                       \<and> length neighbors = length positions
                       \<and> (\<forall>l\<in>set neighbors. length l = length positions - 2)"
    by (auto simp: find_nearest_neighbors_2d [OF assms(2)]
          length_neighbors_of_minus_2 [OF assms(1)])
  show "write_csv writable [] = (False, None)" by (rule write_csv_empty)
next
  assume h: "ncols positions = 2 \<and> image_filenames \<noteq> [] \<and> (k = 0 \<or> k = - 1)"
  then have "all_edges argsort positions image_filenames k = []"
    by (simp add: all_edges_nonpositive)
  with extract_network_data_ok [OF assms(1) _ assms(2), of image_filenames load_metadata k inc] h
  have ex: "extract_network_data argsort load_metadata positions image_filenames k inc
          = Inr (printed_lines (length positions) (length image_filenames) k inc 0, [],
                 if inc then load_metadata (take (min (length positions) (length image_filenames))
                                              image_filenames)
                 else Map.empty)"
    by simp
  then show "\<exists>printed metadata.
               extract_network_data argsort load_metadata positions image_filenames k inc
                 = Inr (printed, [], metadata)"
    by blast
  show "main argsort load_metadata get_thumbnail_path get_original_path edges_writable
               nodes_writable positions image_filenames k include_thumbs inc
              = Inr (None, None)"
    by (rule main_no_edges [OF ex])
qed

lemma find_nearest_neighbors_four_minus_2:
  "find_nearest_neighbors stable_argsort four_points (- 2) = Inr [[1, 2], [0, 2], [0, 1], [1, 2]]"
  by (simp add: find_nearest_neighbors_2d four_points_2d upt4 neighbors_of_def four_points_rows
        stable_argsort_four py_slice_def slice_bound_def)

theorem C10_non_positive_neighbor_counts_witness:
  "argsort_spec stable_argsort \<and> is_2d four_points
   \<and> find_nearest_neighbors stable_argsort four_points 0 = Inr [[], [], [], []]
   \<and> find_nearest_neighbors stable_argsort four_points (- 1) = Inr [[], [], [], []]
   \<and> find_nearest_neighbors stable_argsort four_points (- 2)
       = Inr [[1, 2], [0, 2], [0, 1], [1, 2]]
   \<and> ncols four_points = 2 \<and> four_names \<noteq> []
   \<and> main stable_argsort no_metadata id id True True four_points four_names 0 False False
       = Inr (None, None)
   \<and> main stable_argsort no_metadata id id True True four_points four_names (- 1) False False
       = Inr (None, None)"
proof -
  note c10 = C10_non_positive_neighbor_counts [OF stable_argsort_spec four_points_2d(1)]
  have r: "replicate (length four_points) [] = [[], [], [], []]"
    by (simp add: four_points_2d numeral_eq_Suc)
  have k0: "find_nearest_neighbors stable_argsort four_points 0 = Inr [[], [], [], []]"
    and k1: "find_nearest_neighbors stable_argsort four_points (- 1) = Inr [[], [], [], []]"
    using c10 [of True four_names 0 no_metadata False id id True True False]
    unfolding r by blast+
  have m0: "main stable_argsort no_metadata id id True True four_points four_names 0 False False
              = Inr (None, None)"
    using c10 [of True four_names 0 no_metadata False id id True True False]
      four_points_ncols four_names_facts(1) by blast
  have m1: "main stable_argsort no_metadata id id True True four_points four_names (- 1)
              False False = Inr (None, None)"
    using c10 [of True four_names "- 1" no_metadata False id id True True False]
      four_points_ncols four_names_facts(1) by blast
  show ?thesis
    by (intro conjI stable_argsort_spec four_points_2d(1) k0 k1
          find_nearest_neighbors_four_minus_2 four_points_ncols four_names_facts(1) m0 m1)
qed

section \<open>Writers\<close>

lemma sorted_list_of_set_eqI:
  "sorted xs \<Longrightarrow> distinct xs \<Longrightarrow> set xs = A \<Longrightarrow> sorted_list_of_set A = xs"
  by (metis sorted_list_of_set.idem_if_sorted_distinct)

lemma extra_cols_sorted:
  "sorted [''source_x'', ''source_y'', ''target_x'', ''target_y'']"
  "distinct [''source_x'', ''source_y'', ''target_x'', ''target_y'']"
  by simp_all

lemma fold_union_keys:
  "fold (\<lambda>row acc. acc \<union> f row) rows A = A \<union> (\<Union>row\<in>set rows. f row)"
  by (induction rows arbitrary: A) auto

lemma row_keys_minus_essential:
  "set (row_keys row) - set essential_cols
     = set [''source_x'', ''source_y'', ''target_x'', ''target_y'']"
  by (auto simp: row_keys_def essential_cols_def)

lemma write_csv_SomeD:
  assumes "write_csv writable network_data = (True, Some (hdr, rows))"
  shows "network_data \<noteq> []" and "rows = network_data"
    and "hdr = essential_cols
                 @ sorted_list_of_set ((\<Union>row\<in>set network_data. set (row_keys row))
                                         - set essential_cols)"
  using assms
  by (auto simp: write_csv_def Let_def fold_union_keys split: if_splits)

lemma create_node_csv_SomeD:
  assumes "create_node_csv writable get_thumbnail_path get_original_path network_data metadata
             include_thumbs = (True, Some (hdr, rows))"
  shows "network_data \<noteq> []"
    and "rows = map snd (map (add_metadata metadata)
                   (fold (add_row_nodes include_thumbs get_thumbnail_path get_original_path)
                      network_data []))"
    and "hdr = ''id'' # sorted_list_of_set ((\<Union>row\<in>set rows. fst ` set row) - {''id''})"
  using assms
  by (auto simp: create_node_csv_def Let_def fold_union_keys split: if_splits)

lemma map_of_add_absent:
  "map_of (if k \<notin> fst ` set al then al @ [(k, v)] else al) s
     = (case map_of al s of Some r \<Rightarrow> Some r | None \<Rightarrow> if k = s then Some v else None)"
proof (cases "k \<in> fst ` set al")
  case True
  then obtain r where "map_of al k = Some r"
    by (metis map_of_eq_None_iff not_Some_eq)
  with True show ?thesis by (auto split: option.splits)
next
  case False
  then have "map_of al k = None" by (simp add: map_of_eq_None_iff)
  with False show ?thesis by (auto simp: map_add_def split: option.splits)
qed

lemma map_of_add_row_nodes:
  "map_of (add_row_nodes include_thumbs th og row nodes) s
     = (case map_of nodes s of
          Some r \<Rightarrow> Some r
        | None \<Rightarrow>
            if source row = s
            then Some (new_node include_thumbs th og s (source_x row) (source_y row))
            else if target row = s
            then Some (new_node include_thumbs th og s (target_x row) (target_y row))
            else None)"
  unfolding add_row_nodes_def Let_def map_of_add_absent
  by (auto split: option.splits)

lemma distinct_add_row_nodes:
  "distinct (map fst nodes) \<Longrightarrow>
   distinct (map fst (add_row_nodes include_thumbs th og row nodes))"
  unfolding add_row_nodes_def Let_def by auto

lemma map_of_fold_add_row_nodes:
  "map_of (fold (add_row_nodes include_thumbs th og) rows nodes) s
     = (case map_of nodes s of
          Some r \<Rightarrow> Some r
        | None \<Rightarrow> map_option (\<lambda>(x, y). new_node include_thumbs th og s x y)
                    (first_occurrence rows s))"
proof (induction rows arbitrary: nodes)
  case Nil
  then show ?case by (simp split: option.splits)
next
  case (Cons row rows)
  show ?case
    by (simp add: Cons.IH map_of_add_row_nodes split: option.splits)
qed

lemma distinct_fold_add_row_nodes:
  "distinct (map fst nodes) \<Longrightarrow>
   distinct (map fst (fold (add_row_nodes include_thumbs th og) rows nodes))"
  by (induction rows arbitrary: nodes) (simp_all add: distinct_add_row_nodes)

lemma first_occurrence_None_iff:
  "first_occurrence rows s = None \<longleftrightarrow> s \<notin> source ` set rows \<union> target ` set rows"
  by (induction rows) auto

lemma map_of_merge:
  "q \<notin> fst ` set items \<Longrightarrow>
   map_of (fold (\<lambda>(key, val) nd. if key \<noteq> ''filename'' then AList.update key val nd else nd)
             items node) q
     = map_of node q"
  by (induction items arbitrary: node) (auto simp: update_conv')

lemma map_of_add_metadata:
  assumes "\<And>items. metadata node_id = Some items \<Longrightarrow> q \<notin> fst ` set items"
  shows "map_of (snd (add_metadata metadata (node_id, node))) q = map_of node q"
  using assms by (auto simp: add_metadata_def map_of_merge split: option.splits)

lemma fst_add_metadata: "fst (add_metadata metadata entry) = fst entry"
  by (cases entry) (simp add: add_metadata_def split: option.splits)

lemma map_of_new_node:
  "map_of (new_node include_thumbs th og s x y) ''id'' = Some (Str s)"
  "map_of (new_node include_thumbs th og s x y) ''x'' = Some (Float x)"
  "map_of (new_node include_thumbs th og s x y) ''y'' = Some (Float y)"
  by (simp_all add: new_node_def)

lemma filter_key_distinct:
  "distinct (map fst al) \<Longrightarrow> (s, v) \<in> set al \<Longrightarrow> filter (\<lambda>e. fst e = s) al = [(s, v)]"
proof (induction al)
  case Nil
  then show ?case by simp
next
  case (Cons a al)
  show ?case
  proof (cases "a = (s, v)")
    case True
    then have "s \<notin> fst ` set al" using Cons.prems(1) by auto
    then have "filter (\<lambda>e. fst e = s) al = []"
      by (auto simp: filter_empty_conv)
    then show ?thesis using True by simp
  next
    case False
    then have in_al: "(s, v) \<in> set al" using Cons.prems(2) by simp
    then have "s \<in> fst ` set al" by force
    then have "fst a \<noteq> s" using Cons.prems(1) by auto
    then show ?thesis using Cons.IH in_al Cons.prems(1) by simp
  qed
qed

lemma node_entry:
  fixes n0 :: "'j node_data"
  assumes "(k, n0) \<in> set (fold (add_row_nodes include_thumbs th og) network_data [])"
  shows "\<exists>x y. first_occurrence network_data k = Some (x, y)
             \<and> n0 = new_node include_thumbs th og k x y"
proof -
  define nodes0 :: "(string \<times> 'j node_data) list"
    where "nodes0 = fold (add_row_nodes include_thumbs th og) network_data []"
  have "distinct (map fst nodes0)"
    unfolding nodes0_def by (rule distinct_fold_add_row_nodes) simp
  moreover have "(k, n0) \<in> set nodes0" using assms by (simp add: nodes0_def)
  ultimately have "map_of nodes0 k = Some n0" by simp
  then show ?thesis
    by (auto simp: nodes0_def map_of_fold_add_row_nodes)
qed

lemma node_entry_exists:
  assumes "s \<in> source ` set network_data \<union> target ` set network_data"
  shows "\<exists>n0 :: 'j node_data.
           (s, n0) \<in> set (fold (add_row_nodes include_thumbs th og) network_data [])"
proof -
  from assms obtain xy where "first_occurrence network_data s = Some xy"
    using first_occurrence_None_iff [of network_data s] by auto
  then have "map_of (fold (add_row_nodes include_thumbs th og) network_data
                        ([] :: (string \<times> 'j node_data) list)) s \<noteq> None"
    by (simp add: map_of_fold_add_row_nodes)
  then show ?thesis
    by (auto dest: map_of_SomeD)
qed

lemma edge_keys_minus_essential:
  assumes "network_data \<noteq> []"
  shows "(\<Union>row\<in>set network_data. set (row_keys row)) - set essential_cols
           = set [''source_x'', ''source_y'', ''target_x'', ''target_y'']"
proof -
  have "(\<Union>row\<in>set network_data. set (row_keys row)) - set essential_cols
          = (\<Union>row\<in>set network_data. set (row_keys row) - set essential_cols)"
    by blast
  also have "\<dots> = (\<Union>row\<in>set network_data.
                      set [''source_x'', ''source_y'', ''target_x'', ''target_y''])"
    by (simp only: row_keys_minus_essential)
  also have "\<dots> = set [''source_x'', ''source_y'', ''target_x'', ''target_y'']"
    using assms by (simp only: UN_constant set_empty if_False)
  finally show ?thesis .
qed

lemma write_csv_nonempty:
  assumes "network_data \<noteq> []"
  shows "write_csv True network_data
     = (True, Some ([''source'', ''target'', ''weight'', ''distance'', ''rank'',
                     ''source_x'', ''source_y'', ''target_x'', ''target_y''], network_data))"
proof -
  have "sorted_list_of_set ((\<Union>row\<in>set network_data. set (row_keys row))
                              - set essential_cols)
               = [''source_x'', ''source_y'', ''target_x'', ''target_y'']"
    by (intro sorted_list_of_set_eqI extra_cols_sorted)
       (simp only: edge_keys_minus_essential [OF assms])
  then show ?thesis
    using assms by (simp add: write_csv_def Let_def fold_union_keys essential_cols_def)
qed

lemma create_node_csv_nonempty:
  assumes "network_data \<noteq> []"
    and "map snd (map (add_metadata metadata)
           (fold (add_row_nodes include_thumbs th og) network_data [])) = rows"
    and "sorted_list_of_set ((\<Union>row\<in>set rows. fst ` set row) - {''id''}) = cols"
  shows "create_node_csv True th og network_data metadata include_thumbs
           = (True, Some (''id'' # cols, rows))"
proof -
  have "fold (\<lambda>node_data acc. acc \<union> set (map fst node_data)) rows {}
          = (\<Union>row\<in>set rows. fst ` set row)"
    by (simp add: fold_union_keys)
  then show ?thesis
    unfolding create_node_csv_def Let_def assms(2) using assms(1,3) by simp
qed

lemma nodes_two_point_edges:
  "fold (add_row_nodes False th og) two_point_edges []
     = [(''a.jpg'', [(''id'', Str ''a.jpg''), (''x'', Float 0), (''y'', Float 0)]),
        (''b.jpg'', [(''id'', Str ''b.jpg''), (''x'', Float 1), (''y'', Float 0)])]"
  by (simp add: two_point_edges_def add_row_nodes_def new_node_def Let_def)

lemma sorted_node_cols:
  "sorted_list_of_set {''x'', ''y'', ''year''} = [''x'', ''y'', ''year'']"
  "sorted_list_of_set {''x'', ''y''} = [''x'', ''y'']"
  by (rule sorted_list_of_set_eqI; simp; fail)+

lemma two_point_edges_nonempty: "two_point_edges \<noteq> []"
  by (simp add: two_point_edges_def)

lemma create_node_csv_year:
  "create_node_csv True th og two_point_edges year_metadata False
     = (True, Some ([''id'', ''x'', ''y'', ''year''], two_point_nodes))"
proof (rule create_node_csv_nonempty [OF two_point_edges_nonempty])
  show "map snd (map (add_metadata year_metadata)
                (fold (add_row_nodes False th og) two_point_edges [])) = two_point_nodes"
    unfolding nodes_two_point_edges
    by (simp add: add_metadata_def year_metadata_def two_point_nodes_def)
  have "(\<Union>row\<in>set two_point_nodes. fst ` set row) - {''id''} = {''x'', ''y'', ''year''}"
    by (auto simp: two_point_nodes_def)
  then show "sorted_list_of_set ((\<Union>row\<in>set two_point_nodes. fst ` set row) - {''id''})
               = [''x'', ''y'', ''year'']"
    by (simp only: sorted_node_cols)
qed

lemma create_node_csv_x:
  "create_node_csv True th og two_point_edges x_metadata False
     = (True, Some ([''id'', ''x'', ''y''], two_point_nodes_x))"
proof (rule create_node_csv_nonempty [OF two_point_edges_nonempty])
  show "map snd (map (add_metadata x_metadata)
                (fold (add_row_nodes False th og) two_point_edges [])) = two_point_nodes_x"
    unfolding nodes_two_point_edges
    by (simp add: add_metadata_def x_metadata_def two_point_nodes_x_def)
  have "(\<Union>row\<in>set two_point_nodes_x. fst ` set row) - {''id''} = {''x'', ''y''}"
    by (auto simp: two_point_nodes_x_def)
  then show "sorted_list_of_set ((\<Union>row\<in>set two_point_nodes_x. fst ` set row) - {''id''})
               = [''x'', ''y'']"
    by (simp only: sorted_node_cols)
qed

lemma first_occurrence_two_point_edges:
  "first_occurrence two_point_edges ''a.jpg'' = Some (0, 0)"
  "first_occurrence two_point_edges ''b.jpg'' = Some (1, 0)"
  by (simp_all add: two_point_edges_def)

section \<open>Node table and headers\<close>

text \<open>
  Claim C7, as the code has it. When no metadata entry has a field named \<open>id\<close>, \<open>x\<close> or
  \<open>y\<close>, every identifier that is the source or the target of an edge has exactly one row
  in the node table, and the coordinates of that row are those of the identifier's first
  occurrence, the source of an edge being looked at before its target.
\<close>

theorem C7_one_node_per_identifier:
  fixes metadata :: "'j metadata"
  assumes "create_node_csv writable get_thumbnail_path get_original_path network_data metadata
             include_thumbs = (True, Some (node_header, node_rows))"
    and "keeps_node_fields metadata"
    and "s \<in> source ` set network_data \<union> target ` set network_data"
  shows "\<exists>x y row.
           first_occurrence network_data s = Some (x, y)
         \<and> filter (\<lambda>row. map_of row ''id'' = Some (Str s)) node_rows = [row]
         \<and> map_of row ''x'' = Some (Float x)
         \<and> map_of row ''y'' = Some (Float y)"
proof -
  define nodes0 :: "(string \<times> 'j node_data) list" where
    "nodes0 = fold (add_row_nodes include_thumbs get_thumbnail_path get_original_path)
                network_data []"
  define finish where "finish = (\<lambda>e. snd (add_metadata metadata e))"
  have rows: "node_rows = map finish nodes0"
    using create_node_csv_SomeD(2) [OF assms(1)] by (simp add: nodes0_def finish_def comp_def)
  have dist: "distinct (map fst nodes0)"
    unfolding nodes0_def by (rule distinct_fold_add_row_nodes) simp
  have fields: "map_of (finish (k, n0)) q = map_of n0 q"
    if "q = ''id'' \<or> q = ''x'' \<or> q = ''y''" for k n0 q
  proof -
    have "q \<notin> fst ` set items" if "metadata k = Some items" for items
      using assms(2) [unfolded keeps_node_fields_def, rule_format, OF that] \<open>q = ''id'' \<or> q = ''x'' \<or> q = ''y''\<close>
      by (elim disjE) simp_all
    then show ?thesis
      unfolding finish_def by (rule map_of_add_metadata)
  qed
  have entry: "\<exists>x y. first_occurrence network_data (fst e) = Some (x, y)
                 \<and> map_of (finish e) ''id'' = Some (Str (fst e))
                 \<and> map_of (finish e) ''x'' = Some (Float x)
                 \<and> map_of (finish e) ''y'' = Some (Float y)" if "e \<in> set nodes0" for e
  proof -
    obtain k n0 where e: "e = (k, n0)" by (cases e)
    from that node_entry [of k n0 include_thumbs get_thumbnail_path get_original_path
        network_data]
    obtain x y where "first_occurrence network_data k = Some (x, y)"
      and "n0 = new_node include_thumbs get_thumbnail_path get_original_path k x y"
      unfolding e nodes0_def by blast
    then show ?thesis
      by (simp add: e fields map_of_new_node)
  qed
  from node_entry_exists [OF assms(3), where 'j = 'j] obtain n0
    where in0: "(s, n0) \<in> set nodes0"
    unfolding nodes0_def by blast
  have "filter (\<lambda>row. map_of row ''id'' = Some (Str s)) node_rows
          = map finish (filter (\<lambda>e. map_of (finish e) ''id'' = Some (Str s)) nodes0)"
    by (simp add: rows filter_map comp_def)
  also have "filter (\<lambda>e. map_of (finish e) ''id'' = Some (Str s)) nodes0
               = filter (\<lambda>e. fst e = s) nodes0"
  proof (rule filter_cong)
    fix e assume "e \<in> set nodes0"
    from entry [OF this] have "map_of (finish e) ''id'' = Some (Str (fst e))" by blast
    then show "(map_of (finish e) ''id'' = Some (Str s)) = (fst e = s)" by simp
  qed simp
  also have "\<dots> = [(s, n0)]"
    by (rule filter_key_distinct [OF dist in0])
  finally have one: "filter (\<lambda>row. map_of row ''id'' = Some (Str s)) node_rows
                       = [finish (s, n0)]"
    by simp
  from entry [OF in0] obtain x y where "first_occurrence network_data s = Some (x, y)"
    and "map_of (finish (s, n0)) ''x'' = Some (Float x)"
    and "map_of (finish (s, n0)) ''y'' = Some (Float y)"
    by auto
  with one show ?thesis by blast
qed

theorem C7_one_node_per_identifier_witness:
  "create_node_csv True id id two_point_edges year_metadata False
     = (True, Some ([''id'', ''x'', ''y'', ''year''], two_point_nodes))
   \<and> keeps_node_fields year_metadata
   \<and> ''a.jpg'' \<in> source ` set two_point_edges \<union> target ` set two_point_edges
   \<and> first_occurrence two_point_edges ''a.jpg'' = Some (0, 0)
   \<and> filter (\<lambda>row. map_of row ''id'' = Some (Str ''a.jpg'')) two_point_nodes
       = [hd two_point_nodes]
   \<and> map_of (hd two_point_nodes) ''x'' = Some (Float 0)
   \<and> map_of (hd two_point_nodes) ''y'' = Some (Float 0)"
proof -
  have keeps: "keeps_node_fields year_metadata"
    by (simp add: keeps_node_fields_def year_metadata_def)
  have a: "''a.jpg'' \<in> source ` set two_point_edges \<union> target ` set two_point_edges"
    by (simp add: two_point_edges_def)
  from C7_one_node_per_identifier [OF create_node_csv_year [of id id] keeps a]
  obtain x y row where "first_occurrence two_point_edges ''a.jpg'' = Some (x, y)"
    and one: "filter (\<lambda>row. map_of row ''id'' = Some (Str ''a.jpg'')) two_point_nodes = [row]"
    and xy: "map_of row ''x'' = Some (Float x)" "map_of row ''y'' = Some (Float y)"
    by blast
  then have "x = 0" "y = 0" by (simp_all add: first_occurrence_two_point_edges)
  moreover have "row = hd two_point_nodes"
    using one by (simp add: two_point_nodes_def)
  ultimately show ?thesis
    using keeps a one xy
    by (simp add: create_node_csv_year first_occurrence_two_point_edges)
qed

text \<open>
  Metadata of \<open>a.jpg\<close> with a field \<open>x\<close>: the row of \<open>a.jpg\<close> holds that value, not the
  coordinate \<open>0\<close> of its first occurrence.
\<close>

theorem C7_metadata_overwrites_x_counterexample:
  "create_node_csv True id id two_point_edges x_metadata False
     = (True, Some ([''id'', ''x'', ''y''], two_point_nodes_x))
   \<and> first_occurrence two_point_edges ''a.jpg'' = Some (0, 0)
   \<and> filter (\<lambda>row. map_of row ''id'' = Some (Str ''a.jpg'')) two_point_nodes_x
       = [hd two_point_nodes_x]
   \<and> map_of (hd two_point_nodes_x) ''x'' = Some (Str ''left'')"
  by (simp add: create_node_csv_x first_occurrence_two_point_edges)
     (simp add: two_point_nodes_x_def)

text \<open>
  Claim C8. The header of the edge file is \<open>source, target, weight, distance, rank\<close>
  followed by the other columns in ascending order, which are always the four coordinate
  columns; the header of the node file is \<open>id\<close> followed by the other columns of the node
  rows in ascending order. Both headers are functions of the set of column names alone,
  so equal inputs give equal headers.
\<close>

theorem C8_header_order:
  assumes "write_csv edges_writable network_data = (True, Some (edge_header, edge_rows))"
    and "create_node_csv nodes_writable get_thumbnail_path get_original_path network_data
           metadata include_thumbs = (True, Some (node_header, node_rows))"
  shows "edge_header = [''source'', ''target'', ''weight'', ''distance'', ''rank'']
                         @ drop 5 edge_header
       \<and> sorted (drop 5 edge_header) \<and> distinct (drop 5 edge_header)
       \<and> set (drop 5 edge_header)
           = (\<Union>row\<in>set network_data. set (row_keys row))
               - {''source'', ''target'', ''weight'', ''distance'', ''rank''}
       \<and> drop 5 edge_header = [''source_x'', ''source_y'', ''target_x'', ''target_y'']
       \<and> node_header = ''id'' # tl node_header
       \<and> sorted (tl node_header) \<and> distinct (tl node_header)
       \<and> set (tl node_header) = (\<Union>row\<in>set node_rows. fst ` set row) - {''id''}"
proof -
  let ?E = "(\<Union>row\<in>set network_data. set (row_keys row)) - set essential_cols"
  let ?N = "(\<Union>row\<in>set node_rows. fst ` set row) - {''id''}"
  have finE: "finite ?E" and finN: "finite ?N" by simp_all
  have ne: "network_data \<noteq> []" by (rule write_csv_SomeD(1) [OF assms(1)])
  have eh: "edge_header = essential_cols @ sorted_list_of_set ?E"
    by (rule write_csv_SomeD(3) [OF assms(1)])
  have nh: "node_header = ''id'' # sorted_list_of_set ?N"
    by (rule create_node_csv_SomeD(3) [OF assms(2)])
  have ess: "set essential_cols = {''source'', ''target'', ''weight'', ''distance'', ''rank''}"
    by (simp add: essential_cols_def)
  have d5: "drop 5 edge_header = sorted_list_of_set ?E"
    unfolding eh by (simp add: essential_cols_def)
  have tl: "tl node_header = sorted_list_of_set ?N"
    unfolding nh by simp
  have c1: "edge_header = [''source'', ''target'', ''weight'', ''distance'', ''rank'']
                            @ drop 5 edge_header"
    unfolding d5 unfolding eh by (simp add: essential_cols_def)
  have c2: "sorted (drop 5 edge_header)" and c3: "distinct (drop 5 edge_header)"
    unfolding d5 by simp_all
  have c4: "set (drop 5 edge_header)
              = (\<Union>row\<in>set network_data. set (row_keys row))
                  - {''source'', ''target'', ''weight'', ''distance'', ''rank''}"
    unfolding d5 ess [symmetric] using finE by (rule set_sorted_list_of_set)
  have "sorted_list_of_set ?E = [''source_x'', ''source_y'', ''target_x'', ''target_y'']"
    by (intro sorted_list_of_set_eqI extra_cols_sorted)
       (simp only: edge_keys_minus_essential [OF ne])
  then have c5: "drop 5 edge_header = [''source_x'', ''source_y'', ''target_x'', ''target_y'']"
    unfolding d5 .
  have c6: "node_header = ''id'' # tl node_header"
    unfolding tl by (rule nh)
  have c7: "sorted (tl node_header)" and c8: "distinct (tl node_header)"
    unfolding tl by simp_all
  have c9: "set (tl node_header) = (\<Union>row\<in>set node_rows. fst ` set row) - {''id''}"
    unfolding tl using finN by (rule set_sorted_list_of_set)
  show ?thesis
    by (intro conjI c1 c2 c3 c4 c5 c6 c7 c8 c9)
qed

theorem C8_header_order_witness:
  "write_csv True two_point_edges
     = (True, Some ([''source'', ''target'', ''weight'', ''distance'', ''rank'',
                     ''source_x'', ''source_y'', ''target_x'', ''target_y''], two_point_edges))
   \<and> create_node_csv True id id two_point_edges year_metadata False
       = (True, Some ([''id'', ''x'', ''y'', ''year''], two_point_nodes))
   \<and> sorted [''source_x'', ''source_y'', ''target_x'', ''target_y'']
   \<and> sorted [''x'', ''y'', ''year'']"
proof -
  from C8_header_order [OF write_csv_nonempty [OF two_point_edges_nonempty]
      create_node_csv_year [of id id]]
  have "sorted (drop 5 [''source'', ''target'', ''weight'', ''distance'', ''rank'',
                        ''source_x'', ''source_y'', ''target_x'', ''target_y''])"
    and "sorted (tl [''id'', ''x'', ''y'', ''year''])"
    by blast+
  then show ?thesis
    by (simp add: write_csv_nonempty [OF two_point_edges_nonempty] create_node_csv_year)
qed

end
